theory Spec2Isabelle
  imports Complex_Main "HOL-Library.Sublist"
begin

section \<open>Per-IP rate limiting of the compile routes\<close>

text \<open>
  The compile router keeps one record per client IP in the module-level map
  \<open>requestCounts\<close>. The map is threaded through explicitly; the reading of
  \<open>Date.now()\<close> is the argument \<open>now\<close> (milliseconds).
\<close>

record rate_record =
  count :: int
  resetAt :: int

type_synonym requestCounts = "string \<rightharpoonup> rate_record"

definition RATE_LIMIT :: int where
  "RATE_LIMIT = 10"

definition RATE_WINDOW :: int where
  "RATE_WINDOW = 60000"

text \<open>
  \<open>checkRateLimit\<close> returns the verdict together with the updated map. The first
  branch covers a missing record and a record whose \<open>resetAt\<close> lies strictly
  before \<open>now\<close>.
\<close>

definition checkRateLimit :: "requestCounts \<Rightarrow> string \<Rightarrow> int \<Rightarrow> bool \<times> requestCounts" where
  "checkRateLimit rc ip now =
     (case rc ip of
        None \<Rightarrow> (True, rc(ip \<mapsto> \<lparr>count = 1, resetAt = now + RATE_WINDOW\<rparr>))
      | Some r \<Rightarrow>
          if resetAt r < now then (True, rc(ip \<mapsto> \<lparr>count = 1, resetAt = now + RATE_WINDOW\<rparr>))
          else if count r \<ge> RATE_LIMIT then (False, rc)
          else (True, rc(ip \<mapsto> r\<lparr>count := count r + 1\<rparr>)))"

text \<open>
  Both \<open>POST /\<close> and \<open>POST /execute\<close> start with the same gate: the client IP is
  the first non-empty header of \<open>x-forwarded-for\<close>, \<open>x-real-ip\<close>, else the literal
  \<open>unknown\<close>; a refused request is answered with status 429 before anything else runs.
\<close>

definition clientIp :: "string option \<Rightarrow> string option \<Rightarrow> string" where
  "clientIp forwardedFor realIp =
     (case forwardedFor of
        Some (c # cs) \<Rightarrow> c # cs
      | _ \<Rightarrow> (case realIp of Some (c # cs) \<Rightarrow> c # cs | _ \<Rightarrow> ''unknown''))"

definition rateLimitGate :: "requestCounts \<Rightarrow> string option \<Rightarrow> string option \<Rightarrow> int \<Rightarrow> nat option \<times> requestCounts" where
  "rateLimitGate rc forwardedFor realIp now =
     (case checkRateLimit rc (clientIp forwardedFor realIp) now of
        (ok, rc') \<Rightarrow> (if \<not> ok then Some 429 else None, rc'))"

text \<open>A run of calls, each with its IP and its clock reading, in arrival order.\<close>

fun runCalls :: "requestCounts \<Rightarrow> (string \<times> int) list \<Rightarrow> bool list \<times> requestCounts" where
  "runCalls rc [] = ([], rc)"
| "runCalls rc ((ip, now) # calls) =
     (case checkRateLimit rc ip now of
        (ok, rc') \<Rightarrow> (case runCalls rc' calls of (oks, rc'') \<Rightarrow> (ok # oks, rc'')))"

text \<open>The verdicts that the calls of one IP received, in order.\<close>

definition verdictsFor :: "string \<Rightarrow> (string \<times> int) list \<Rightarrow> bool list \<Rightarrow> bool list" where
  "verdictsFor ip calls oks = map snd (filter (\<lambda>(c, ok). fst c = ip) (zip calls oks))"

subsection \<open>The fixed window\<close>

lemma checkRateLimit_other:
  "ip' \<noteq> ip \<Longrightarrow> snd (checkRateLimit rc ip' now) ip = rc ip"
  by (simp add: checkRateLimit_def split: option.splits)

lemma upt_Suc_map: "map f [0..<Suc n] = f 0 # map (\<lambda>k. f (Suc k)) [0..<n]"
  by (simp add: upt_conv_Cons map_Suc_upt[symmetric] del: upt_Suc)

lemma window_run:
  "rc ip = Some r \<Longrightarrow> \<forall>c \<in> set calls. fst c = ip \<longrightarrow> snd c \<le> resetAt r \<Longrightarrow>
   verdictsFor ip calls (fst (runCalls rc calls)) =
     map (\<lambda>k. count r + int k < RATE_LIMIT) [0..<length (filter (\<lambda>c. fst c = ip) calls)]"
proof (induction calls arbitrary: rc r)
  case Nil
  then show ?case by (simp add: verdictsFor_def)
next
  case (Cons c calls)
  obtain ip' now where c: "c = (ip', now)" by (cases c)
  obtain ok rc' where step: "checkRateLimit rc ip' now = (ok, rc')" by (cases "checkRateLimit rc ip' now")
  obtain oks rc'' where rest: "runCalls rc' calls = (oks, rc'')" by (cases "runCalls rc' calls")
  show ?case
  proof (cases "ip' = ip")
    case False
    then have "rc' ip = Some r" using checkRateLimit_other[of ip' ip rc now] step Cons.prems(1) by simp
    from Cons.IH[of rc' r, OF this] Cons.prems(2) False show ?thesis
      using c step rest by (simp add: verdictsFor_def)
  next
    case True
    have le: "now \<le> resetAt r" using Cons.prems(2) c True by simp
    show ?thesis
    proof (cases "count r \<ge> RATE_LIMIT")
      case full: True
      then have "ok = False" "rc' = rc" using step Cons.prems(1) le True
        by (auto simp: checkRateLimit_def)
      then have "rc' ip = Some r" using Cons.prems(1) by simp
      from Cons.IH[of rc' r, OF this] Cons.prems(2) show ?thesis
        using c step rest True full \<open>ok = False\<close>
        by (simp add: verdictsFor_def upt_Suc_map del: upt_Suc)
    next
      case notfull: False
      then have ok: "ok = True" and rc': "rc' = rc(ip \<mapsto> r\<lparr>count := count r + 1\<rparr>)"
        using step Cons.prems(1) le True by (auto simp: checkRateLimit_def)
      then have "rc' ip = Some (r\<lparr>count := count r + 1\<rparr>)" by simp
      from Cons.IH[of rc' "r\<lparr>count := count r + 1\<rparr>", OF this] Cons.prems(2) show ?thesis
        using c step rest True notfull ok
        by (simp add: verdictsFor_def upt_Suc_map add.commute add.left_commute del: upt_Suc)
    qed
  qed
qed

text \<open>
  Claim C4, as the code has it. A call for an IP that has no record, or whose record's
  \<open>resetAt\<close> lies strictly before the call, opens a window: it is accepted and
  stores count 1 with \<open>resetAt\<close> one window later. Among the calls of that IP that
  follow with clock readings up to and including that \<open>resetAt\<close>, whatever other
  IPs do in between, exactly the first ten (the opening call included) are accepted and
  every later one is refused. A call at a time not after \<open>resetAt\<close> never opens a
  window: it is accepted and counted while fewer than ten were, refused otherwise. The
  gate of the two routes answers 429 exactly for a refused call.
\<close>

theorem checkRateLimit_fixed_window:
  "((rc ip = None \<or> (\<exists>r. rc ip = Some r \<and> resetAt r < t0)) \<longrightarrow>
      (\<forall>c \<in> set calls. fst c = ip \<longrightarrow> snd c \<le> t0 + RATE_WINDOW) \<longrightarrow>
      checkRateLimit rc ip t0 = (True, rc(ip \<mapsto> \<lparr>count = 1, resetAt = t0 + RATE_WINDOW\<rparr>)) \<and>
      verdictsFor ip ((ip, t0) # calls) (fst (runCalls rc ((ip, t0) # calls))) =
        map (\<lambda>k. k < 10) [0..<Suc (length (filter (\<lambda>c. fst c = ip) calls))])
   \<and> (rc ip = Some r \<and> now \<le> resetAt r \<longrightarrow>
        checkRateLimit rc ip now =
          (if count r < 10 then (True, rc(ip \<mapsto> r\<lparr>count := count r + 1\<rparr>)) else (False, rc)))
   \<and> (fst (rateLimitGate rc xff xri now) =
        (if fst (checkRateLimit rc (clientIp xff xri) now) then None else Some 429))"
proof (intro conjI impI)
  assume fresh: "rc ip = None \<or> (\<exists>r. rc ip = Some r \<and> resetAt r < t0)"
    and win: "\<forall>c \<in> set calls. fst c = ip \<longrightarrow> snd c \<le> t0 + RATE_WINDOW"
  let ?r = "\<lparr>count = 1, resetAt = t0 + RATE_WINDOW\<rparr>"
  let ?rc = "rc(ip \<mapsto> ?r)"
  show first: "checkRateLimit rc ip t0 = (True, ?rc)"
    using fresh by (auto simp: checkRateLimit_def)
  have "?rc ip = Some ?r" by simp
  from window_run[of ?rc ip ?r calls, OF this] win
  have "verdictsFor ip calls (fst (runCalls ?rc calls)) =
          map (\<lambda>k. 1 + int k < RATE_LIMIT) [0..<length (filter (\<lambda>c. fst c = ip) calls)]"
    by simp
  moreover have "(\<lambda>k. 1 + int k < RATE_LIMIT) = (\<lambda>k. Suc k < 10)"
    by (auto simp: RATE_LIMIT_def fun_eq_iff)
  ultimately show "verdictsFor ip ((ip, t0) # calls) (fst (runCalls rc ((ip, t0) # calls))) =
        map (\<lambda>k. k < 10) [0..<Suc (length (filter (\<lambda>c. fst c = ip) calls))]"
    using first
    by (simp add: verdictsFor_def upt_Suc_map case_prod_beta del: upt_Suc)
next
  assume "rc ip = Some r \<and> now \<le> resetAt r"
  then show "checkRateLimit rc ip now =
          (if count r < 10 then (True, rc(ip \<mapsto> r\<lparr>count := count r + 1\<rparr>)) else (False, rc))"
    by (auto simp: checkRateLimit_def RATE_LIMIT_def)
next
  show "fst (rateLimitGate rc xff xri now) =
        (if fst (checkRateLimit rc (clientIp xff xri) now) then None else Some 429)"
    by (simp add: rateLimitGate_def split: prod.splits)
qed

text \<open>
  A run of thirteen calls from two addresses within one window: the eleventh call of the
  first address, at the very millisecond of \<open>resetAt\<close>, is the first one refused.
\<close>

theorem checkRateLimit_fixed_window_witness:
  "verdictsFor ''10.0.0.1''
     ((''10.0.0.1'', 0) # [(''10.0.0.1'', 5::int), (''10.0.0.2'', 6), (''10.0.0.1'', 7), (''10.0.0.1'', 7),
        (''10.0.0.1'', 100), (''10.0.0.1'', 2000), (''10.0.0.1'', 2000), (''10.0.0.1'', 30000),
        (''10.0.0.1'', 40000), (''10.0.0.1'', 59999), (''10.0.0.1'', 60000), (''10.0.0.2'', 60000)])
     (fst (runCalls Map.empty
     ((''10.0.0.1'', 0) # [(''10.0.0.1'', 5::int), (''10.0.0.2'', 6), (''10.0.0.1'', 7), (''10.0.0.1'', 7),
        (''10.0.0.1'', 100), (''10.0.0.1'', 2000), (''10.0.0.1'', 2000), (''10.0.0.1'', 30000),
        (''10.0.0.1'', 40000), (''10.0.0.1'', 59999), (''10.0.0.1'', 60000), (''10.0.0.2'', 60000)])))
   = [True, True, True, True, True, True, True, True, True, True, False]
   \<and> checkRateLimit [''10.0.0.1'' \<mapsto> \<lparr>count = 3, resetAt = 500\<rparr>] ''10.0.0.1'' 500
       = (True, [''10.0.0.1'' \<mapsto> \<lparr>count = 4, resetAt = 500\<rparr>])"
proof
  note T = checkRateLimit_fixed_window [of Map.empty "''10.0.0.1''" 0
     "[(''10.0.0.1'', 5::int), (''10.0.0.2'', 6), (''10.0.0.1'', 7), (''10.0.0.1'', 7),
        (''10.0.0.1'', 100), (''10.0.0.1'', 2000), (''10.0.0.1'', 2000), (''10.0.0.1'', 30000),
        (''10.0.0.1'', 40000), (''10.0.0.1'', 59999), (''10.0.0.1'', 60000), (''10.0.0.2'', 60000)]" undefined 0 None None,
     THEN conjunct1, rule_format, THEN conjunct2]
  have "verdictsFor ''10.0.0.1''
     ((''10.0.0.1'', 0) # [(''10.0.0.1'', 5::int), (''10.0.0.2'', 6), (''10.0.0.1'', 7), (''10.0.0.1'', 7),
        (''10.0.0.1'', 100), (''10.0.0.1'', 2000), (''10.0.0.1'', 2000), (''10.0.0.1'', 30000),
        (''10.0.0.1'', 40000), (''10.0.0.1'', 59999), (''10.0.0.1'', 60000), (''10.0.0.2'', 60000)])
     (fst (runCalls Map.empty
     ((''10.0.0.1'', 0) # [(''10.0.0.1'', 5::int), (''10.0.0.2'', 6), (''10.0.0.1'', 7), (''10.0.0.1'', 7),
        (''10.0.0.1'', 100), (''10.0.0.1'', 2000), (''10.0.0.1'', 2000), (''10.0.0.1'', 30000),
        (''10.0.0.1'', 40000), (''10.0.0.1'', 59999), (''10.0.0.1'', 60000), (''10.0.0.2'', 60000)])))
    = map (\<lambda>k. k < 10) [0..<Suc (length (filter (\<lambda>c. fst c = ''10.0.0.1'') [(''10.0.0.1'', 5::int), (''10.0.0.2'', 6), (''10.0.0.1'', 7), (''10.0.0.1'', 7),
        (''10.0.0.1'', 100), (''10.0.0.1'', 2000), (''10.0.0.1'', 2000), (''10.0.0.1'', 30000),
        (''10.0.0.1'', 40000), (''10.0.0.1'', 59999), (''10.0.0.1'', 60000), (''10.0.0.2'', 60000)]))]"
    by (rule T) (auto simp: RATE_WINDOW_def)
  also have "\<dots> = [True, True, True, True, True, True, True, True, True, True, False]"
    by (simp add: upt_rec)
  finally show "verdictsFor ''10.0.0.1''
     ((''10.0.0.1'', 0) # [(''10.0.0.1'', 5::int), (''10.0.0.2'', 6), (''10.0.0.1'', 7), (''10.0.0.1'', 7),
        (''10.0.0.1'', 100), (''10.0.0.1'', 2000), (''10.0.0.1'', 2000), (''10.0.0.1'', 30000),
        (''10.0.0.1'', 40000), (''10.0.0.1'', 59999), (''10.0.0.1'', 60000), (''10.0.0.2'', 60000)])
     (fst (runCalls Map.empty
     ((''10.0.0.1'', 0) # [(''10.0.0.1'', 5::int), (''10.0.0.2'', 6), (''10.0.0.1'', 7), (''10.0.0.1'', 7),
        (''10.0.0.1'', 100), (''10.0.0.1'', 2000), (''10.0.0.1'', 2000), (''10.0.0.1'', 30000),
        (''10.0.0.1'', 40000), (''10.0.0.1'', 59999), (''10.0.0.1'', 60000), (''10.0.0.2'', 60000)])))
   = [True, True, True, True, True, True, True, True, True, True, False]" .
next
  show "checkRateLimit [''10.0.0.1'' \<mapsto> \<lparr>count = 3, resetAt = 500\<rparr>] ''10.0.0.1'' 500
       = (True, [''10.0.0.1'' \<mapsto> \<lparr>count = 4, resetAt = 500\<rparr>])"
    using checkRateLimit_fixed_window [of "[''10.0.0.1'' \<mapsto> \<lparr>count = 3, resetAt = 500\<rparr>]"
      "''10.0.0.1''" 0 "[]" "\<lparr>count = 3, resetAt = 500\<rparr>" 500 None None, THEN conjunct2, THEN conjunct1]
    by simp
qed

text \<open>
  Claim C4 as stated lets the first call at or after \<open>resetAt\<close> start a fresh
  window. After ten calls at time 0 the record is full with \<open>resetAt = 60000\<close>, and
  a call at exactly 60000 is refused.
\<close>

theorem checkRateLimit_at_resetAt_counterexample:
  "snd (runCalls Map.empty (replicate 10 (''10.0.0.1'', 0))) ''10.0.0.1''
     = Some \<lparr>count = 10, resetAt = 60000\<rparr>
   \<and> fst (checkRateLimit (snd (runCalls Map.empty (replicate 10 (''10.0.0.1'', 0)))) ''10.0.0.1'' 60000) = False"
  by (simp add: checkRateLimit_def RATE_WINDOW_def RATE_LIMIT_def eval_nat_numeral)

section \<open>Upload job manager\<close>

text \<open>
  The module keeps its jobs in the map \<open>jobs\<close>, keyed by job id. The map is passed
  in and returned; the fresh UUID and the reading of the clock are arguments.
\<close>

datatype JobStatus = Pending | Processing | Completed | Failed

record FileResult =
  filename :: string
  status :: JobStatus
  documentId :: "string option"
  chunksCreated :: "int option"
  totalTokens :: "int option"
  fileError :: "string option"

text \<open>\<open>Partial<FileResult>\<close>: each key is present or absent.\<close>

record FileUpdate =
  setFilename :: "string option"
  setStatus :: "JobStatus option"
  setDocumentId :: "string option"
  setChunksCreated :: "int option"
  setTotalTokens :: "int option"
  setFileError :: "string option"

record UploadJob =
  jobId :: string
  language :: string
  version :: string
  jobStatus :: JobStatus
  totalFiles :: nat
  processedFiles :: nat
  files :: "FileResult list"
  createdAt :: int
  updatedAt :: int

type_synonym jobs = "string \<rightharpoonup> UploadJob"

definition createJob :: "jobs \<Rightarrow> string \<Rightarrow> int \<Rightarrow> string \<Rightarrow> string \<Rightarrow> string list \<Rightarrow> UploadJob \<times> jobs" where
  "createJob js uuid now lang ver filenames =
     (let job = \<lparr>jobId = uuid, language = lang, version = ver, jobStatus = Pending,
                 totalFiles = length filenames, processedFiles = 0,
                 files = map (\<lambda>f. \<lparr>filename = f, status = Pending, documentId = None,
                                     chunksCreated = None, totalTokens = None, fileError = None\<rparr>) filenames,
                 createdAt = now, updatedAt = now\<rparr>
      in (job, js(uuid \<mapsto> job)))"

definition getJob :: "jobs \<Rightarrow> string \<Rightarrow> UploadJob option" where
  "getJob js jid = js jid"

definition updateJobStatus :: "jobs \<Rightarrow> string \<Rightarrow> JobStatus \<Rightarrow> int \<Rightarrow> jobs" where
  "updateJobStatus js jid st now =
     (case js jid of
        None \<Rightarrow> js
      | Some job \<Rightarrow> js(jid \<mapsto> job\<lparr>jobStatus := st, updatedAt := now\<rparr>))"

text \<open>\<open>Object.assign(file, update)\<close>: the keys present in the update overwrite the file's.\<close>

definition assign :: "FileResult \<Rightarrow> FileUpdate \<Rightarrow> FileResult" where
  "assign f u =
     \<lparr>filename = (case setFilename u of Some v \<Rightarrow> v | None \<Rightarrow> filename f),
      status = (case setStatus u of Some v \<Rightarrow> v | None \<Rightarrow> status f),
      documentId = (case setDocumentId u of Some v \<Rightarrow> Some v | None \<Rightarrow> documentId f),
      chunksCreated = (case setChunksCreated u of Some v \<Rightarrow> Some v | None \<Rightarrow> chunksCreated f),
      totalTokens = (case setTotalTokens u of Some v \<Rightarrow> Some v | None \<Rightarrow> totalTokens f),
      fileError = (case setFileError u of Some v \<Rightarrow> Some v | None \<Rightarrow> fileError f)\<rparr>"

text \<open>
  \<open>job.files.find(...)\<close> yields the first file with the name, which is then mutated in
  place; \<open>None\<close> when no file has it.
\<close>

fun assignFirst :: "string \<Rightarrow> FileUpdate \<Rightarrow> FileResult list \<Rightarrow> FileResult list option" where
  "assignFirst name u [] = None"
| "assignFirst name u (f # fs) =
     (if filename f = name then Some (assign f u # fs)
      else map_option ((#) f) (assignFirst name u fs))"

definition isProcessed :: "FileResult \<Rightarrow> bool" where
  "isProcessed f = (status f = Completed \<or> status f = Failed)"

definition updateFileStatus :: "jobs \<Rightarrow> string \<Rightarrow> string \<Rightarrow> FileUpdate \<Rightarrow> int \<Rightarrow> jobs" where
  "updateFileStatus js jid name u now =
     (case js jid of
        None \<Rightarrow> js
      | Some job \<Rightarrow>
          (case assignFirst name u (files job) of
             None \<Rightarrow> js
           | Some fs \<Rightarrow>
               let processed = length (filter isProcessed fs);
                   st = (if processed = totalFiles job then
                           (let hasFailures = list_ex (\<lambda>f. status f = Failed) fs
                            in if hasFailures then Completed else Completed)
                         else if list_ex (\<lambda>f. status f = Processing) fs then Processing
                         else jobStatus job)
               in js(jid \<mapsto> job\<lparr>files := fs, processedFiles := processed,
                                   jobStatus := st, updatedAt := now\<rparr>)))"

record JobProgress =
  progressStatus :: JobStatus
  progress :: int
  completedCount :: nat
  failedCount :: nat
  total :: nat
  progressFiles :: "FileResult list"

text \<open>\<open>Math.round\<close> rounds to the nearest integer, halves upwards.\<close>

definition Math_round :: "real \<Rightarrow> int" where
  "Math_round x = \<lfloor>x + 1 / 2\<rfloor>"

definition getJobProgress :: "jobs \<Rightarrow> string \<Rightarrow> JobProgress option" where
  "getJobProgress js jid =
     (case js jid of
        None \<Rightarrow> None
      | Some job \<Rightarrow>
          Some \<lparr>progressStatus = jobStatus job,
                progress = (if totalFiles job > 0
                            then Math_round ((real (processedFiles job) / real (totalFiles job)) * 100)
                            else 0),
                completedCount = length (filter (\<lambda>f. status f = Completed) (files job)),
                failedCount = length (filter (\<lambda>f. status f = Failed) (files job)),
                total = totalFiles job,
                progressFiles = files job\<rparr>)"

text \<open>\<open>deleteJob\<close> reports whether the job was there; the cleanup timer set by
  \<open>createJob\<close> does the same deletion an hour later.\<close>

definition deleteJob :: "jobs \<Rightarrow> string \<Rightarrow> bool \<times> jobs" where
  "deleteJob js jid = (js jid \<noteq> None, js(jid := None))"

text \<open>The operations of the module that change the map.\<close>

datatype JobOp =
    CreateJob string int string string "string list"
  | UpdateJobStatus string JobStatus int
  | UpdateFileStatus string string FileUpdate int
  | DeleteJob string
  | CleanupTimer string

fun applyOp :: "jobs \<Rightarrow> JobOp \<Rightarrow> jobs" where
  "applyOp js (CreateJob uuid now lang ver filenames) = snd (createJob js uuid now lang ver filenames)"
| "applyOp js (UpdateJobStatus jid st now) = updateJobStatus js jid st now"
| "applyOp js (UpdateFileStatus jid name u now) = updateFileStatus js jid name u now"
| "applyOp js (DeleteJob jid) = snd (deleteJob js jid)"
| "applyOp js (CleanupTimer jid) = snd (deleteJob js jid)"

definition jobInvariant :: "UploadJob \<Rightarrow> bool" where
  "jobInvariant job =
     (length (files job) = totalFiles job \<and>
      processedFiles job = length (filter isProcessed (files job)))"

definition jobsInvariant :: "jobs \<Rightarrow> bool" where
  "jobsInvariant js = (\<forall>jid job. js jid = Some job \<longrightarrow> jobInvariant job)"

subsection \<open>Invariants of the job map\<close>

lemma assignFirst_length: "assignFirst name u fs = Some fs' \<Longrightarrow> length fs' = length fs"
  by (induction fs arbitrary: fs') (auto split: if_splits)

lemma createJob_invariant: "jobInvariant (fst (createJob js uuid now lang ver filenames))"
  by (simp add: createJob_def jobInvariant_def isProcessed_def Let_def filter_map comp_def)

lemma applyOp_invariant: "jobsInvariant js \<Longrightarrow> jobsInvariant (applyOp js op)"
proof (cases op)
  case (CreateJob uuid now lang ver filenames)
  assume "jobsInvariant js"
  then show ?thesis
    using CreateJob createJob_invariant[of js uuid now lang ver filenames]
    by (auto simp: jobsInvariant_def createJob_def Let_def)
next
  case (UpdateJobStatus jid st now)
  assume "jobsInvariant js"
  then show ?thesis using UpdateJobStatus
    by (auto simp: jobsInvariant_def updateJobStatus_def jobInvariant_def split: option.splits)
next
  case (UpdateFileStatus jid name u now)
  assume "jobsInvariant js"
  then show ?thesis using UpdateFileStatus
    by (auto simp: jobsInvariant_def updateFileStatus_def jobInvariant_def Let_def
        dest: assignFirst_length split: option.splits)
next
  case (DeleteJob jid)
  assume "jobsInvariant js"
  then show ?thesis using DeleteJob by (auto simp: jobsInvariant_def deleteJob_def)
next
  case (CleanupTimer jid)
  assume "jobsInvariant js"
  then show ?thesis using CleanupTimer by (auto simp: jobsInvariant_def deleteJob_def)
qed

lemma Math_round_percent:
  assumes "p \<le> t" "0 < t"
  shows "0 \<le> Math_round ((real p / real t) * 100) \<and> Math_round ((real p / real t) * 100) \<le> 100"
proof -
  define x where "x = real p / real t"
  have "0 \<le> x" unfolding x_def by simp
  moreover have "x \<le> 1" unfolding x_def using assms by simp
  ultimately have "0 \<le> \<lfloor>x * 100 + 1 / 2\<rfloor> \<and> \<lfloor>x * 100 + 1 / 2\<rfloor> \<le> 100"
    by linarith
  then show ?thesis unfolding Math_round_def x_def .
qed

lemma updateFileStatus_status:
  "updateFileStatus js jid name u now jid' = Some job' \<Longrightarrow> jobStatus job' = Failed \<Longrightarrow>
   \<exists>job. js jid' = Some job \<and> jobStatus job = Failed"
  by (auto simp: updateFileStatus_def Let_def split: option.splits if_splits)

lemma updateFileStatus_completed:
  assumes "jobsInvariant js" "js jid = Some job" "assignFirst name u (files job) = Some fs"
    "list_all isProcessed fs"
  shows "map_option jobStatus (updateFileStatus js jid name u now jid) = Some Completed"
proof -
  have "length fs = totalFiles job"
    using assms(1,2,3) assignFirst_length[of name u "files job" fs]
    by (auto simp: jobsInvariant_def jobInvariant_def)
  moreover have "filter isProcessed fs = fs"
    using assms(4) by (simp add: list_all_iff)
  ultimately show ?thesis using assms(2,3)
    by (simp add: updateFileStatus_def Let_def)
qed

lemma getJobProgress_range:
  assumes "jobsInvariant js" "getJobProgress js jid = Some p"
  shows "0 \<le> progress p \<and> progress p \<le> 100 \<and> (total p = 0 \<longrightarrow> progress p = 0)"
proof -
  obtain job where job: "js jid = Some job" using assms(2)
    by (auto simp: getJobProgress_def split: option.splits)
  then have inv: "jobInvariant job" using assms(1) by (auto simp: jobsInvariant_def)
  have le: "processedFiles job \<le> totalFiles job"
    using inv length_filter_le[of isProcessed "files job"] by (simp add: jobInvariant_def)
  show ?thesis
  proof (cases "totalFiles job > 0")
    case True
    with Math_round_percent[OF le True] job assms(2) show ?thesis
      by (auto simp: getJobProgress_def)
  next
    case False
    with job assms(2) show ?thesis by (auto simp: getJobProgress_def)
  qed
qed

text \<open>
  Claim C10. The empty job map satisfies the invariant (for every job, the files array
  is as long as \<open>totalFiles\<close> and \<open>processedFiles\<close> is the number of files whose
  status is completed or failed), and every operation of the module that changes the map
  preserves it. Under the invariant \<open>getJobProgress\<close> reports a progress between 0
  and 100, and 0 when \<open>totalFiles\<close> is 0. When \<open>updateFileStatus\<close> has applied its
  update and every file is then completed or failed, the job's status becomes completed,
  failed files or not; and a job that has status failed after \<open>updateFileStatus\<close> had
  it before: the function never sets it.
\<close>

theorem job_manager_invariants:
  "jobsInvariant Map.empty
   \<and> (jobsInvariant js \<longrightarrow> jobsInvariant (applyOp js op))
   \<and> (jobsInvariant js \<and> getJobProgress js jid = Some p \<longrightarrow>
        0 \<le> progress p \<and> progress p \<le> 100 \<and> (total p = 0 \<longrightarrow> progress p = 0))
   \<and> (jobsInvariant js \<and> js jid = Some job \<and> assignFirst name u (files job) = Some fs \<and>
        list_all isProcessed fs \<longrightarrow>
        map_option jobStatus (updateFileStatus js jid name u now jid) = Some Completed)
   \<and> (updateFileStatus js jid name u now jid' = Some job' \<and> jobStatus job' = Failed \<longrightarrow>
        map_option jobStatus (js jid') = Some Failed)"
proof (intro conjI impI)
  show "jobsInvariant Map.empty" by (simp add: jobsInvariant_def)
next
  assume "jobsInvariant js" then show "jobsInvariant (applyOp js op)" by (rule applyOp_invariant)
next
  assume "jobsInvariant js \<and> getJobProgress js jid = Some p"
  then show "0 \<le> progress p" "progress p \<le> 100" using getJobProgress_range by blast+
next
  assume "jobsInvariant js \<and> getJobProgress js jid = Some p" and "total p = 0"
  then show "progress p = 0" using getJobProgress_range by blast
next
  assume "jobsInvariant js \<and> js jid = Some job \<and> assignFirst name u (files job) = Some fs \<and>
        list_all isProcessed fs"
  then show "map_option jobStatus (updateFileStatus js jid name u now jid) = Some Completed"
    using updateFileStatus_completed by blast
next
  assume "updateFileStatus js jid name u now jid' = Some job' \<and> jobStatus job' = Failed"
  then show "map_option jobStatus (js jid') = Some Failed"
    using updateFileStatus_status[of js jid name u now jid' job'] by auto
qed

text \<open>
  A job of two files: the first fails, the second completes. Half way the progress is
  50; the completion of the second file completes the job although the first one failed.
  A job marked failed through \<open>updateJobStatus\<close> stays so under a later file update.
\<close>

definition exampleJobs :: jobs where
  "exampleJobs =
     applyOp (applyOp Map.empty (CreateJob ''job-1'' 1000 ''cpp'' ''cpp17'' [''a.pdf'', ''b.html'']))
       (UpdateFileStatus ''job-1'' ''a.pdf''
          \<lparr>setFilename = None, setStatus = Some Failed, setDocumentId = None,
           setChunksCreated = None, setTotalTokens = None, setFileError = Some ''parse error''\<rparr> 2000)"

definition exampleDone :: FileUpdate where
  "exampleDone =
     \<lparr>setFilename = None, setStatus = Some Completed, setDocumentId = Some ''doc-7'',
      setChunksCreated = Some 3, setTotalTokens = Some 1200, setFileError = None\<rparr>"

lemma exampleJobs_value:
  "exampleJobs = [''job-1'' \<mapsto>
     \<lparr>jobId = ''job-1'', language = ''cpp'', version = ''cpp17'', jobStatus = Pending,
      totalFiles = Suc (Suc 0), processedFiles = Suc 0,
      files = [\<lparr>filename = ''a.pdf'', status = Failed, documentId = None, chunksCreated = None,
                 totalTokens = None, fileError = Some ''parse error''\<rparr>,
               \<lparr>filename = ''b.html'', status = Pending, documentId = None, chunksCreated = None,
                 totalTokens = None, fileError = None\<rparr>],
      createdAt = 1000, updatedAt = 2000\<rparr>]"
  by (simp add: exampleJobs_def updateFileStatus_def createJob_def Let_def assign_def isProcessed_def)

theorem job_manager_invariants_witness:
  "jobsInvariant exampleJobs
   \<and> jobsInvariant (applyOp exampleJobs (UpdateFileStatus ''job-1'' ''b.html'' exampleDone 3000))
   \<and> map_option progress (getJobProgress exampleJobs ''job-1'') = Some 50
   \<and> map_option jobStatus (updateFileStatus exampleJobs ''job-1'' ''b.html'' exampleDone 3000 ''job-1'')
       = Some Completed
   \<and> map_option jobStatus (updateJobStatus exampleJobs ''job-1'' Failed 2500 ''job-1'') = Some Failed
   \<and> map_option jobStatus
        (updateFileStatus (updateJobStatus exampleJobs ''job-1'' Failed 2500) ''job-1'' ''a.pdf''
           exampleDone 3000 ''job-1'') = Some Failed"
proof -
  note T = job_manager_invariants
  have i0: "jobsInvariant Map.empty" using T by blast
  have i1: "jobsInvariant (applyOp Map.empty (CreateJob ''job-1'' 1000 ''cpp'' ''cpp17'' [''a.pdf'', ''b.html'']))"
    using T i0 by blast
  have i2: "jobsInvariant exampleJobs"
    unfolding exampleJobs_def using T i1 by blast
  have i3: "jobsInvariant (applyOp exampleJobs (UpdateFileStatus ''job-1'' ''b.html'' exampleDone 3000))"
    using T i2 by blast
  have p: "map_option progress (getJobProgress exampleJobs ''job-1'') = Some 50"
    by (simp add: exampleJobs_value getJobProgress_def Math_round_def)
  define J where "J =
     \<lparr>jobId = ''job-1'', language = ''cpp'', version = ''cpp17'', jobStatus = Pending,
      totalFiles = Suc (Suc 0), processedFiles = Suc 0,
      files = [\<lparr>filename = ''a.pdf'', status = Failed, documentId = None, chunksCreated = None,
                 totalTokens = None, fileError = Some ''parse error''\<rparr>,
               \<lparr>filename = ''b.html'', status = Pending, documentId = None, chunksCreated = None,
                 totalTokens = None, fileError = None\<rparr>],
      createdAt = 1000, updatedAt = 2000\<rparr>"
  define FS where "FS =
     [\<lparr>filename = ''a.pdf'', status = Failed, documentId = None, chunksCreated = None,
        totalTokens = None, fileError = Some ''parse error''\<rparr>,
      \<lparr>filename = ''b.html'', status = Completed, documentId = Some ''doc-7'',
        chunksCreated = Some 3, totalTokens = Some 1200, fileError = None\<rparr>]"
  have j: "exampleJobs ''job-1'' = Some J" by (simp add: exampleJobs_value J_def)
  have a: "assignFirst ''b.html'' exampleDone (files J) = Some FS"
    by (simp add: J_def FS_def exampleDone_def assign_def)
  have l: "list_all isProcessed FS" by (simp add: FS_def isProcessed_def)
  have c: "map_option jobStatus (updateFileStatus exampleJobs ''job-1'' ''b.html'' exampleDone 3000 ''job-1'')
       = Some Completed"
    using T[of exampleJobs _ "''job-1''" _ J "''b.html''" exampleDone FS 3000] i2 j a l by blast
  have f0: "map_option jobStatus (updateJobStatus exampleJobs ''job-1'' Failed 2500 ''job-1'') = Some Failed"
    by (simp add: exampleJobs_value updateJobStatus_def)
  have f1: "map_option jobStatus
        (updateFileStatus (updateJobStatus exampleJobs ''job-1'' Failed 2500) ''job-1'' ''a.pdf''
           exampleDone 3000 ''job-1'') = Some Failed"
    by (simp add: exampleJobs_value updateJobStatus_def updateFileStatus_def exampleDone_def
        assign_def isProcessed_def Let_def)
  show ?thesis using i2 i3 p c f0 f1 by blast
qed

section \<open>Diff analysis\<close>

text \<open>
  \<open>CppVersionId\<close> is the shared union type of version identifiers; \<open>versionName\<close>
  gives the string each one is at run time.
\<close>

datatype CppVersionId = cpp98 | cpp03 | cpp11 | cpp14 | cpp17 | cpp20 | cpp23 | cpp26

fun versionName :: "CppVersionId \<Rightarrow> string" where
  "versionName cpp98 = ''cpp98''"
| "versionName cpp03 = ''cpp03''"
| "versionName cpp11 = ''cpp11''"
| "versionName cpp14 = ''cpp14''"
| "versionName cpp17 = ''cpp17''"
| "versionName cpp20 = ''cpp20''"
| "versionName cpp23 = ''cpp23''"
| "versionName cpp26 = ''cpp26''"

text \<open>The five arrays of a diff; the items themselves are opaque.\<close>

record 'a DiffCategory =
  newFeatures :: "'a list"
  behaviorChanges :: "'a list"
  deprecated :: "'a list"
  removed :: "'a list"
  libraryChanges :: "'a list"

datatype CategoryKey =
  NewFeaturesKey | BehaviorChangesKey | DeprecatedKey | RemovedKey | LibraryChangesKey

text \<open>
  A stored diff file as \<open>JSON.parse\<close> delivers it: any of the arrays may be missing,
  which \<open>analyzeDiff\<close> reads as empty (\<open>data.newFeatures || []\<close>).
\<close>

record 'a StoredDiffData =
  storedSource :: CppVersionId
  storedTarget :: CppVersionId
  storedNewFeatures :: "'a list option"
  storedBehaviorChanges :: "'a list option"
  storedDeprecated :: "'a list option"
  storedRemoved :: "'a list option"
  storedLibraryChanges :: "'a list option"

record DiffAnalysisRequest =
  sourceVersion :: CppVersionId
  targetVersion :: CppVersionId
  categories :: "CategoryKey list option"

record 'a DiffAnalysisResult =
  source :: CppVersionId
  target :: CppVersionId
  diff :: "'a DiffCategory"
  summary :: string
  totalChanges :: nat

text \<open>
  The directory \<open>data/diffs\<close> is a function from the key to the parsed content of
  \<open>key.json\<close>, \<open>None\<close> when reading or parsing throws. The module-level cache is
  a map that \<open>loadDiffData\<close> fills.
\<close>

type_synonym 'a diffFiles = "string \<Rightarrow> 'a StoredDiffData option"
type_synonym 'a diffDataCache = "string \<rightharpoonup> 'a StoredDiffData"

definition getDiffKey :: "CppVersionId \<Rightarrow> CppVersionId \<Rightarrow> string" where
  "getDiffKey s t = versionName s @ ''-'' @ versionName t"

definition loadDiffData ::
  "'a diffFiles \<Rightarrow> 'a diffDataCache \<Rightarrow> CppVersionId \<Rightarrow> CppVersionId
     \<Rightarrow> 'a StoredDiffData option \<times> 'a diffDataCache" where
  "loadDiffData fs cache s t =
     (let key = getDiffKey s t in
      case cache key of
        Some d \<Rightarrow> (Some d, cache)
      | None \<Rightarrow>
          (case fs key of
             Some d \<Rightarrow> (Some d, cache(key \<mapsto> d))
           | None \<Rightarrow> (None, cache)))"

definition getVersionPairs :: "(CppVersionId \<times> CppVersionId) list" where
  "getVersionPairs = [(cpp11, cpp14), (cpp14, cpp17)]"

definition versionOrder :: "CppVersionId list" where
  "versionOrder = [cpp98, cpp03, cpp11, cpp14, cpp17, cpp20, cpp23]"

text \<open>\<open>Array.prototype.indexOf\<close>: the first position of the element, or -1.\<close>

fun indexOf :: "'a list \<Rightarrow> 'a \<Rightarrow> int" where
  "indexOf [] x = -1"
| "indexOf (y # ys) x =
     (if y = x then 0 else (let i = indexOf ys x in if i = -1 then -1 else i + 1))"

text \<open>
  The \<open>while\<close> loop of \<open>getUpgradePath\<close>. It ends because every hardcoded pair leads
  to a later version.
\<close>

function upgradeLoop ::
  "CppVersionId \<Rightarrow> CppVersionId \<Rightarrow> (CppVersionId \<times> CppVersionId) list
     \<Rightarrow> (CppVersionId \<times> CppVersionId) list" where
  "upgradeLoop current tgt path =
     (if current \<noteq> tgt then
        (case find (\<lambda>(s, _). s = current) getVersionPairs of
           None \<Rightarrow> path
         | Some nextPair \<Rightarrow>
             if snd nextPair = tgt then path @ [nextPair]
             else upgradeLoop (snd nextPair) tgt (path @ [nextPair]))
      else path)"
  by pat_completeness auto
termination
  by (relation "measure (\<lambda>(current, tgt, path). nat (10 - indexOf versionOrder current))")
    (auto simp: getVersionPairs_def versionOrder_def split: if_splits)

definition getUpgradePath :: "CppVersionId \<Rightarrow> CppVersionId \<Rightarrow> (CppVersionId \<times> CppVersionId) list" where
  "getUpgradePath s t =
     (let sourceIndex = indexOf versionOrder s;
          targetIndex = indexOf versionOrder t
      in if sourceIndex = -1 \<or> targetIndex = -1 \<or> sourceIndex \<ge> targetIndex then []
         else upgradeLoop s t [])"

definition emptyDiff :: "'a DiffCategory" where
  "emptyDiff = \<lparr>newFeatures = [], behaviorChanges = [], deprecated = [], removed = [],
                libraryChanges = []\<rparr>"

definition pushAll :: "'a DiffCategory \<Rightarrow> 'a DiffCategory \<Rightarrow> 'a DiffCategory" where
  "pushAll merged cat =
     \<lparr>newFeatures = newFeatures merged @ newFeatures cat,
      behaviorChanges = behaviorChanges merged @ behaviorChanges cat,
      deprecated = deprecated merged @ deprecated cat,
      removed = removed merged @ removed cat,
      libraryChanges = libraryChanges merged @ libraryChanges cat\<rparr>"

definition mergeDiffCategories :: "'a DiffCategory list \<Rightarrow> 'a DiffCategory" where
  "mergeDiffCategories cats = foldl pushAll emptyDiff cats"

definition filterCategories :: "'a DiffCategory \<Rightarrow> CategoryKey list option \<Rightarrow> 'a DiffCategory" where
  "filterCategories d flt =
     (case flt of
        None \<Rightarrow> d
      | Some [] \<Rightarrow> d
      | Some ks \<Rightarrow>
          \<lparr>newFeatures = (if NewFeaturesKey \<in> set ks then newFeatures d else []),
           behaviorChanges = (if BehaviorChangesKey \<in> set ks then behaviorChanges d else []),
           deprecated = (if DeprecatedKey \<in> set ks then deprecated d else []),
           removed = (if RemovedKey \<in> set ks then removed d else []),
           libraryChanges = (if LibraryChangesKey \<in> set ks then libraryChanges d else [])\<rparr>)"

text \<open>Decimal printing of a count, as template literals do.\<close>

fun showNat :: "nat \<Rightarrow> string" where
  "showNat n =
     (if n < 10 then [char_of (48 + n)] else showNat (n div 10) @ [char_of (48 + n mod 10)])"

fun joinWith :: "string \<Rightarrow> string list \<Rightarrow> string" where
  "joinWith sep [] = []"
| "joinWith sep [x] = x"
| "joinWith sep (x # y # ys) = x @ sep @ joinWith sep (y # ys)"

text \<open>\<open>String.prototype.replace\<close> with a string pattern: the first occurrence only.\<close>

fun replaceFirst :: "string \<Rightarrow> string \<Rightarrow> string \<Rightarrow> string" where
  "replaceFirst pat rep [] = (if pat = [] then rep else [])"
| "replaceFirst pat rep (c # cs) =
     (if prefix pat (c # cs) then rep @ drop (length pat) (c # cs)
      else c # replaceFirst pat rep cs)"

definition totalOf :: "'a DiffCategory \<Rightarrow> nat" where
  "totalOf d = length (newFeatures d) + length (behaviorChanges d) + length (deprecated d)
     + length (removed d) + length (libraryChanges d)"

definition generateSummary :: "CppVersionId \<Rightarrow> CppVersionId \<Rightarrow> 'a DiffCategory \<Rightarrow> string" where
  "generateSummary s t d =
     (let parts =
            (if length (newFeatures d) > 0 then [showNat (length (newFeatures d)) @ '' new features''] else [])
          @ (if length (behaviorChanges d) > 0 then [showNat (length (behaviorChanges d)) @ '' behavior changes''] else [])
          @ (if length (deprecated d) > 0 then [showNat (length (deprecated d)) @ '' deprecated items''] else [])
          @ (if length (removed d) > 0 then [showNat (length (removed d)) @ '' removed items''] else [])
          @ (if length (libraryChanges d) > 0 then [showNat (length (libraryChanges d)) @ '' library changes''] else []);
          sourceLabel = replaceFirst ''cpp'' ''C++'' (versionName s);
          targetLabel = replaceFirst ''cpp'' ''C++'' (versionName t)
      in ''Upgrading from '' @ sourceLabel @ '' to '' @ targetLabel @ '': '' @ showNat (totalOf d)
           @ '' total changes including '' @ joinWith '', '' parts @ ''.'')"

definition orEmpty :: "'a list option \<Rightarrow> 'a list" where
  "orEmpty xs = (case xs of Some ys \<Rightarrow> ys | None \<Rightarrow> [])"

definition toCategory :: "'a StoredDiffData \<Rightarrow> 'a DiffCategory" where
  "toCategory d =
     \<lparr>newFeatures = orEmpty (storedNewFeatures d),
      behaviorChanges = orEmpty (storedBehaviorChanges d),
      deprecated = orEmpty (storedDeprecated d),
      removed = orEmpty (storedRemoved d),
      libraryChanges = orEmpty (storedLibraryChanges d)\<rparr>"

text \<open>The \<open>for\<close> loop over the path: steps whose data cannot be loaded are skipped.\<close>

fun loadPath ::
  "'a diffFiles \<Rightarrow> 'a diffDataCache \<Rightarrow> (CppVersionId \<times> CppVersionId) list \<Rightarrow> 'a DiffCategory list
     \<Rightarrow> 'a DiffCategory list \<times> 'a diffDataCache" where
  "loadPath fs cache [] allCategories = (allCategories, cache)"
| "loadPath fs cache ((s, t) # path) allCategories =
     (case loadDiffData fs cache s t of
        (Some d, cache') \<Rightarrow> loadPath fs cache' path (allCategories @ [toCategory d])
      | (None, cache') \<Rightarrow> loadPath fs cache' path allCategories)"

text \<open>\<open>analyzeDiff\<close> throws an \<open>Error\<close> with a message, or returns its result; either
  way the cache is handed on.\<close>

definition analyzeDiff ::
  "'a diffFiles \<Rightarrow> 'a diffDataCache \<Rightarrow> DiffAnalysisRequest
     \<Rightarrow> (string + 'a DiffAnalysisResult) \<times> 'a diffDataCache" where
  "analyzeDiff fs cache request =
     (let path = getUpgradePath (sourceVersion request) (targetVersion request) in
      if length path = 0 then
        (Inl (''No upgrade path found from '' @ versionName (sourceVersion request) @ '' to ''
                @ versionName (targetVersion request)), cache)
      else
        (case loadPath fs cache path [] of
           (allCategories, cache') \<Rightarrow>
             let mergedDiff = filterCategories (mergeDiffCategories allCategories) (categories request)
             in (Inr \<lparr>source = sourceVersion request, target = targetVersion request,
                       diff = mergedDiff,
                       summary = generateSummary (sourceVersion request) (targetVersion request) mergedDiff,
                       totalChanges = totalOf mergedDiff\<rparr>, cache')))"

subsection \<open>What the merged diff holds\<close>












text \<open>Two diff files, one for each hardcoded step.\<close>

definition exampleFiles :: "string diffFiles" where
  "exampleFiles key =
     (if key = ''cpp11-cpp14'' then
        Some \<lparr>storedSource = cpp11, storedTarget = cpp14,
              storedNewFeatures = Some [''generic lambdas''],
              storedBehaviorChanges = Some [''sized deallocation''],
              storedDeprecated = None,
              storedRemoved = None,
              storedLibraryChanges = Some [''make_unique'']\<rparr>
      else if key = ''cpp14-cpp17'' then
        Some \<lparr>storedSource = cpp14, storedTarget = cpp17,
              storedNewFeatures = Some [''structured bindings'', ''if constexpr''],
              storedBehaviorChanges = Some [],
              storedDeprecated = Some [''register''],
              storedRemoved = Some [''auto_ptr''],
              storedLibraryChanges = Some [''optional'']\<rparr>
      else None)"

lemma example_path: "getUpgradePath cpp11 cpp17 = [(cpp11, cpp14), (cpp14, cpp17)]"
  by (simp add: getUpgradePath_def versionOrder_def getVersionPairs_def)




section \<open>The diff route\<close>

text \<open>A request body as \<open>JSON.parse\<close> delivers it; an object lists its members in
  source order, and a repeated key stands for its last value.\<close>

datatype json =
  JNull | JBool bool | JNum real | JStr string | JArr "json list" | JObj "(string \<times> json) list"

definition jsonMember :: "(string \<times> json) list \<Rightarrow> string \<Rightarrow> json option" where
  "jsonMember kvs k = map_of (rev kvs) k"

definition versionOfName :: "string \<Rightarrow> CppVersionId option" where
  "versionOfName s = find (\<lambda>v. versionName v = s) [cpp98, cpp03, cpp11, cpp14, cpp17, cpp20, cpp23]"

definition categoryOfName :: "string \<Rightarrow> CategoryKey option" where
  "categoryOfName s =
     (if s = ''newFeatures'' then Some NewFeaturesKey
      else if s = ''behaviorChanges'' then Some BehaviorChangesKey
      else if s = ''deprecated'' then Some DeprecatedKey
      else if s = ''libraryChanges'' then Some LibraryChangesKey
      else None)"

text \<open>\<open>z.enum([...])\<close> on a jsonMember that must be there.\<close>

definition zVersion :: "json option \<Rightarrow> CppVersionId option" where
  "zVersion j = (case j of Some (JStr s) \<Rightarrow> versionOfName s | _ \<Rightarrow> None)"

fun zCategoryList :: "json list \<Rightarrow> CategoryKey list option" where
  "zCategoryList [] = Some []"
| "zCategoryList (JStr s # js) =
     (case categoryOfName s of
        None \<Rightarrow> None
      | Some k \<Rightarrow> map_option ((#) k) (zCategoryList js))"
| "zCategoryList (_ # js) = None"

text \<open>\<open>z.array(z.enum([...])).optional()\<close>: an absent jsonMember is fine, any value other
  than an array of the four names is not.\<close>

definition zCategories :: "json option \<Rightarrow> CategoryKey list option option" where
  "zCategories j =
     (case j of
        None \<Rightarrow> Some None
      | Some (JArr js) \<Rightarrow> map_option Some (zCategoryList js)
      | Some _ \<Rightarrow> None)"

text \<open>\<open>diffRequestSchema.safeParse\<close>: \<open>None\<close> when \<open>parsed.success\<close> is false.\<close>

definition safeParseDiffRequest :: "json \<Rightarrow> DiffAnalysisRequest option" where
  "safeParseDiffRequest body =
     (case body of
        JObj kvs \<Rightarrow>
          (case (zVersion (jsonMember kvs ''sourceVersion''), zVersion (jsonMember kvs ''targetVersion''),
                 zCategories (jsonMember kvs ''categories'')) of
             (Some s, Some t, Some cs) \<Rightarrow> Some \<lparr>sourceVersion = s, targetVersion = t, categories = cs\<rparr>
           | _ \<Rightarrow> None)
      | _ \<Rightarrow> None)"

datatype 'a DiffReply =
    ValidationFailed
  | ErrorReply string
  | DiffData "'a DiffAnalysisResult"

record 'a DiffOutcome =
  httpStatus :: nat
  reply :: "'a DiffReply"
  analyzeCalls :: "DiffAnalysisRequest list"
  cacheAfter :: "'a diffDataCache"

text \<open>
  \<open>POST /api/diff\<close>. The body is what \<open>c.req.json()\<close> gives: \<open>Inl m\<close> when it throws
  an error with message \<open>m\<close>. The outcome lists the requests that were handed to
  \<open>analyzeDiff\<close>.
\<close>

definition diffPost :: "'a diffFiles \<Rightarrow> 'a diffDataCache \<Rightarrow> string + json \<Rightarrow> 'a DiffOutcome" where
  "diffPost fs cache body =
     (case body of
        Inl m \<Rightarrow> \<lparr>httpStatus = 500, reply = ErrorReply m, analyzeCalls = [], cacheAfter = cache\<rparr>
      | Inr j \<Rightarrow>
          (case safeParseDiffRequest j of
             None \<Rightarrow> \<lparr>httpStatus = 400, reply = ValidationFailed, analyzeCalls = [], cacheAfter = cache\<rparr>
           | Some req \<Rightarrow>
               let sourceIndex = indexOf versionOrder (sourceVersion req);
                   targetIndex = indexOf versionOrder (targetVersion req)
               in if sourceIndex \<ge> targetIndex then
                    \<lparr>httpStatus = 400,
                     reply = ErrorReply ''Target version must be newer than source version'',
                     analyzeCalls = [], cacheAfter = cache\<rparr>
                  else
                    (case analyzeDiff fs cache req of
                       (Inl m, cache') \<Rightarrow>
                         \<lparr>httpStatus = 500, reply = ErrorReply m, analyzeCalls = [req], cacheAfter = cache'\<rparr>
                     | (Inr res, cache') \<Rightarrow>
                         \<lparr>httpStatus = 200, reply = DiffData res, analyzeCalls = [req], cacheAfter = cache'\<rparr>)))"

text \<open>\<open>a\<close> stands strictly before \<open>b\<close> in a list.\<close>

fun precedes :: "'a list \<Rightarrow> 'a \<Rightarrow> 'a \<Rightarrow> bool" where
  "precedes [] a b = False"
| "precedes (x # xs) a b = (if x = a then b \<in> set xs else precedes xs a b)"

subsection \<open>When the analysis fails\<close>

lemma getUpgradePath_empty:
  "getUpgradePath s t = [] \<longleftrightarrow>
     \<not> precedes versionOrder s t \<or> \<not> list_ex (\<lambda>p. fst p = s) getVersionPairs"
  by (cases s; cases t; simp add: getUpgradePath_def versionOrder_def getVersionPairs_def)

lemma analyzeDiff_throws:
  "isl (fst (analyzeDiff fs cache req)) \<longleftrightarrow>
     getUpgradePath (sourceVersion req) (targetVersion req) = []"
  by (simp add: analyzeDiff_def Let_def split: prod.splits)

text \<open>
  Claim C5. \<open>analyzeDiff\<close> throws exactly when the upgrade path from the source to the
  target is empty, which is exactly when the source does not stand strictly before the
  target in the order cpp98, cpp03, cpp11, cpp14, cpp17, cpp20, cpp23 (a version outside
  the order stands before nothing) or no hardcoded pair starts at the source.
  \<open>POST /api/diff\<close> answers 400, handing nothing to \<open>analyzeDiff\<close>, when the parsed
  body fails the schema or the source's index is not strictly less than the target's;
  otherwise it calls \<open>analyzeDiff\<close> once and answers 500 if that throws, 200 if not.
\<close>

theorem analyzeDiff_throws_iff_no_path:
  "(isl (fst (analyzeDiff fs cache req)) \<longleftrightarrow>
      getUpgradePath (sourceVersion req) (targetVersion req) = [])
   \<and> (getUpgradePath s t = [] \<longleftrightarrow>
        \<not> precedes versionOrder s t \<or> \<not> list_ex (\<lambda>p. fst p = s) getVersionPairs)
   \<and> (safeParseDiffRequest j = None \<longrightarrow>
        httpStatus (diffPost fs cache (Inr j)) = 400 \<and> analyzeCalls (diffPost fs cache (Inr j)) = [])
   \<and> (safeParseDiffRequest j = Some req \<and>
        \<not> indexOf versionOrder (sourceVersion req) < indexOf versionOrder (targetVersion req) \<longrightarrow>
        httpStatus (diffPost fs cache (Inr j)) = 400 \<and> analyzeCalls (diffPost fs cache (Inr j)) = [])
   \<and> (safeParseDiffRequest j = Some req \<and>
        indexOf versionOrder (sourceVersion req) < indexOf versionOrder (targetVersion req) \<longrightarrow>
        analyzeCalls (diffPost fs cache (Inr j)) = [req] \<and>
        httpStatus (diffPost fs cache (Inr j)) =
          (if isl (fst (analyzeDiff fs cache req)) then 500 else 200))"
proof (intro conjI impI)
  show "isl (fst (analyzeDiff fs cache req)) \<longleftrightarrow>
      getUpgradePath (sourceVersion req) (targetVersion req) = []"
    by (rule analyzeDiff_throws)
  show "getUpgradePath s t = [] \<longleftrightarrow>
        \<not> precedes versionOrder s t \<or> \<not> list_ex (\<lambda>p. fst p = s) getVersionPairs"
    by (rule getUpgradePath_empty)
next
  assume "safeParseDiffRequest j = None"
  then show "httpStatus (diffPost fs cache (Inr j)) = 400"
    and "analyzeCalls (diffPost fs cache (Inr j)) = []"
    by (simp_all add: diffPost_def)
next
  assume "safeParseDiffRequest j = Some req \<and>
        \<not> indexOf versionOrder (sourceVersion req) < indexOf versionOrder (targetVersion req)"
  then show "httpStatus (diffPost fs cache (Inr j)) = 400"
    and "analyzeCalls (diffPost fs cache (Inr j)) = []"
    by (simp_all add: diffPost_def Let_def)
next
  assume a: "safeParseDiffRequest j = Some req \<and>
        indexOf versionOrder (sourceVersion req) < indexOf versionOrder (targetVersion req)"
  obtain r cache' where r: "analyzeDiff fs cache req = (r, cache')" by (cases "analyzeDiff fs cache req")
  show "analyzeCalls (diffPost fs cache (Inr j)) = [req]"
    using a r by (cases r) (simp_all add: diffPost_def Let_def)
  show "httpStatus (diffPost fs cache (Inr j)) =
          (if isl (fst (analyzeDiff fs cache req)) then 500 else 200)"
    using a r by (cases r) (simp_all add: diffPost_def Let_def)
qed

lemma example_parse:
  "safeParseDiffRequest (JObj [(''sourceVersion'', JStr src), (''targetVersion'', JStr tgt)]) =
     (case (versionOfName src, versionOfName tgt) of
        (Some s, Some t) \<Rightarrow> Some \<lparr>sourceVersion = s, targetVersion = t, categories = None\<rparr>
      | _ \<Rightarrow> None)"
  by (simp add: safeParseDiffRequest_def jsonMember_def zVersion_def zCategories_def
      split: option.splits)

theorem analyzeDiff_throws_iff_no_path_witness:
  "isl (fst (analyzeDiff exampleFiles Map.empty
          \<lparr>sourceVersion = cpp17, targetVersion = cpp20, categories = None\<rparr>))
   \<and> precedes versionOrder cpp17 cpp20
   \<and> \<not> list_ex (\<lambda>p. fst p = cpp17) getVersionPairs
   \<and> httpStatus (diffPost exampleFiles Map.empty
        (Inr (JObj [(''sourceVersion'', JStr ''cpp11''), (''targetVersion'', JStr ''c++14'')]))) = 400
   \<and> httpStatus (diffPost exampleFiles Map.empty
        (Inr (JObj [(''sourceVersion'', JStr ''cpp17''), (''targetVersion'', JStr ''cpp11'')]))) = 400
   \<and> httpStatus (diffPost exampleFiles Map.empty
        (Inr (JObj [(''sourceVersion'', JStr ''cpp17''), (''targetVersion'', JStr ''cpp20'')]))) = 500
   \<and> httpStatus (diffPost exampleFiles Map.empty
        (Inr (JObj [(''sourceVersion'', JStr ''cpp11''), (''targetVersion'', JStr ''cpp17'')]))) = 200"
proof -
  note T = analyzeDiff_throws_iff_no_path
  let ?bad = "JObj [(''sourceVersion'', JStr ''cpp11''), (''targetVersion'', JStr ''c++14'')]"
  let ?rev = "JObj [(''sourceVersion'', JStr ''cpp17''), (''targetVersion'', JStr ''cpp11'')]"
  let ?gap = "JObj [(''sourceVersion'', JStr ''cpp17''), (''targetVersion'', JStr ''cpp20'')]"
  let ?ok = "JObj [(''sourceVersion'', JStr ''cpp11''), (''targetVersion'', JStr ''cpp17'')]"
  have p: "precedes versionOrder cpp17 cpp20" "\<not> list_ex (\<lambda>p. fst p = cpp17) getVersionPairs"
    by (simp_all add: versionOrder_def getVersionPairs_def)
  then have e: "getUpgradePath cpp17 cpp20 = []"
    using T[of _ _ _ cpp17 cpp20] by blast
  then have thr: "isl (fst (analyzeDiff exampleFiles Map.empty
          \<lparr>sourceVersion = cpp17, targetVersion = cpp20, categories = None\<rparr>))"
    using T[of exampleFiles Map.empty "\<lparr>sourceVersion = cpp17, targetVersion = cpp20, categories = None\<rparr>"]
    by simp
  have "safeParseDiffRequest ?bad = None"
    by (simp add: example_parse versionOfName_def)
  then have s1: "httpStatus (diffPost exampleFiles Map.empty (Inr ?bad)) = 400"
    using T[of exampleFiles Map.empty _ _ _ ?bad] by blast
  have "safeParseDiffRequest ?rev = Some \<lparr>sourceVersion = cpp17, targetVersion = cpp11, categories = None\<rparr>"
    by (simp add: example_parse versionOfName_def)
  moreover have "\<not> indexOf versionOrder cpp17 < indexOf versionOrder cpp11"
    by (simp add: versionOrder_def)
  ultimately have s2: "httpStatus (diffPost exampleFiles Map.empty (Inr ?rev)) = 400"
    using T[of exampleFiles Map.empty
        "\<lparr>sourceVersion = cpp17, targetVersion = cpp11, categories = None\<rparr>" _ _ ?rev]
    by simp
  have "safeParseDiffRequest ?gap = Some \<lparr>sourceVersion = cpp17, targetVersion = cpp20, categories = None\<rparr>"
    by (simp add: example_parse versionOfName_def)
  moreover have "indexOf versionOrder cpp17 < indexOf versionOrder cpp20"
    by (simp add: versionOrder_def)
  ultimately have s3: "httpStatus (diffPost exampleFiles Map.empty (Inr ?gap)) = 500"
    using thr T[of exampleFiles Map.empty
        "\<lparr>sourceVersion = cpp17, targetVersion = cpp20, categories = None\<rparr>" _ _ ?gap]
    by simp
  have "safeParseDiffRequest ?ok = Some \<lparr>sourceVersion = cpp11, targetVersion = cpp17, categories = None\<rparr>"
    by (simp add: example_parse versionOfName_def)
  moreover have "indexOf versionOrder cpp11 < indexOf versionOrder cpp17"
    by (simp add: versionOrder_def)
  moreover have "\<not> isl (fst (analyzeDiff exampleFiles Map.empty
          \<lparr>sourceVersion = cpp11, targetVersion = cpp17, categories = None\<rparr>))"
    using T[of exampleFiles Map.empty "\<lparr>sourceVersion = cpp11, targetVersion = cpp17, categories = None\<rparr>"]
    by (simp add: example_path)
  ultimately have s4: "httpStatus (diffPost exampleFiles Map.empty (Inr ?ok)) = 200"
    using T[of exampleFiles Map.empty
        "\<lparr>sourceVersion = cpp11, targetVersion = cpp17, categories = None\<rparr>" _ _ ?ok]
    by simp
  show ?thesis using thr p s1 s2 s3 s4 by simp
qed

section \<open>Batch ingestion\<close>

text \<open>
  \<open>ingestDocument\<close> talks to the embedding provider and to the database. Here it is a
  parameter: from the state of those services and an input it yields the new state and
  either the result or the rejection's \<open>reason.message\<close> (\<open>None\<close> when the reason
  has none). The documents of one batch are started together; the model runs them in
  input order, which is the order in which \<open>Promise.allSettled\<close> reports them.
\<close>

record 'm IngestDocumentInput =
  versionId :: string
  title :: string
  content :: string
  metadata :: 'm

record IngestResult =
  ingestedDocumentId :: string
  ingestedChunks :: nat
  ingestedTokens :: nat

record 'm FailedIngest =
  failedInput :: "'m IngestDocumentInput"
  failedError :: string

record 'm BatchIngestResult =
  successful :: "IngestResult list"
  failed :: "'m FailedIngest list"

type_synonym ('m, 'db) ingestDocument =
  "'db \<Rightarrow> 'm IngestDocumentInput \<Rightarrow> (string option + IngestResult) \<times> 'db"

text \<open>\<open>Promise.allSettled(batch.map(ingestDocument))\<close>: one settled outcome per input.\<close>

fun allSettled ::
  "('m, 'db) ingestDocument \<Rightarrow> 'db \<Rightarrow> 'm IngestDocumentInput list
     \<Rightarrow> (string option + IngestResult) list \<times> 'db" where
  "allSettled ingest db [] = ([], db)"
| "allSettled ingest db (x # xs) =
     (case ingest db x of
        (r, db') \<Rightarrow> (case allSettled ingest db' xs of (rs, db'') \<Rightarrow> (r # rs, db'')))"

text \<open>The body of \<open>batchResults.forEach((result, index) => ...)\<close>.\<close>

definition record_outcome ::
  "'m IngestDocumentInput list \<Rightarrow> 'm BatchIngestResult \<Rightarrow> (nat \<times> (string option + IngestResult))
     \<Rightarrow> 'm BatchIngestResult" where
  "record_outcome batch results p =
     (case p of
        (index, Inr v) \<Rightarrow> results\<lparr>successful := successful results @ [v]\<rparr>
      | (index, Inl reason) \<Rightarrow>
          results\<lparr>failed := failed results @
            [\<lparr>failedInput = batch ! index,
              failedError = (case reason of
                               Some (c # cs) \<Rightarrow> c # cs
                             | _ \<Rightarrow> ''Unknown error'')\<rparr>]\<rparr>)"

definition CONCURRENCY :: nat where
  "CONCURRENCY = 5"

function ingestLoop ::
  "('m, 'db) ingestDocument \<Rightarrow> 'db \<Rightarrow> 'm IngestDocumentInput list \<Rightarrow> nat \<Rightarrow> 'm BatchIngestResult
     \<Rightarrow> 'm BatchIngestResult \<times> 'db" where
  "ingestLoop ingest db inputs i results =
     (if i < length inputs then
        (let batch = take CONCURRENCY (drop i inputs) in
         case allSettled ingest db batch of
           (batchResults, db') \<Rightarrow>
             ingestLoop ingest db' inputs (i + CONCURRENCY)
               (foldl (record_outcome batch) results (List.enumerate 0 batchResults)))
      else (results, db))"
  by pat_completeness auto
termination
  by (relation "measure (\<lambda>(ingest, db, inputs, i, results). length inputs - i)")
    (auto simp: CONCURRENCY_def)

declare ingestLoop.simps [simp del]

definition ingestBatch ::
  "('m, 'db) ingestDocument \<Rightarrow> 'db \<Rightarrow> 'm IngestDocumentInput list \<Rightarrow> 'm BatchIngestResult \<times> 'db" where
  "ingestBatch ingest db inputs = ingestLoop ingest db inputs 0 \<lparr>successful = [], failed = []\<rparr>"

subsection \<open>Every document is accounted for\<close>

text \<open>The successes among a list of outcomes, and the failures with their inputs.\<close>

definition successesOf :: "(string option + IngestResult) list \<Rightarrow> IngestResult list" where
  "successesOf rs = List.map_filter (\<lambda>r. case r of Inr v \<Rightarrow> Some v | Inl _ \<Rightarrow> None) rs"

definition failuresOf ::
  "'m IngestDocumentInput list \<Rightarrow> (string option + IngestResult) list \<Rightarrow> 'm FailedIngest list" where
  "failuresOf xs rs =
     List.map_filter
       (\<lambda>(x, r). case r of
           Inl reason \<Rightarrow> Some \<lparr>failedInput = x,
                              failedError = (case reason of Some (c # cs) \<Rightarrow> c # cs
                                             | _ \<Rightarrow> ''Unknown error'')\<rparr>
         | Inr _ \<Rightarrow> None)
       (zip xs rs)"

lemma allSettled_length: "allSettled ingest db xs = (rs, db') \<Longrightarrow> length rs = length xs"
  by (induction xs arbitrary: db rs) (auto split: prod.splits)

lemma allSettled_append:
  "allSettled ingest db (xs @ ys) =
     (case allSettled ingest db xs of
        (rs, db') \<Rightarrow> (case allSettled ingest db' ys of (rs', db'') \<Rightarrow> (rs @ rs', db'')))"
  by (induction xs arbitrary: db) (auto split: prod.splits)

lemma foldl_record_outcome_aux:
  "length rs \<le> length batch - k \<Longrightarrow> k \<le> length batch \<Longrightarrow>
   foldl (record_outcome batch) results (List.enumerate k rs) =
     \<lparr>successful = successful results @ successesOf rs,
      failed = failed results @ failuresOf (drop k batch) rs\<rparr>"
proof (induction rs arbitrary: k results)
  case Nil
  then show ?case by (simp add: successesOf_def failuresOf_def)
next
  case (Cons r rs)
  then have k: "k < length batch" by simp
  then have d: "drop k batch = batch ! k # drop (Suc k) batch" by (simp add: Cons_nth_drop_Suc)
  have ih: "foldl (record_outcome batch) results' (List.enumerate (Suc k) rs) =
     \<lparr>successful = successful results' @ successesOf rs,
      failed = failed results' @ failuresOf (drop (Suc k) batch) rs\<rparr>" for results'
    using Cons.IH[of "Suc k" results'] Cons.prems by simp
  have "foldl (record_outcome batch) results (List.enumerate k (r # rs)) =
          foldl (record_outcome batch) (record_outcome batch results (k, r)) (List.enumerate (Suc k) rs)"
    by simp
  also have "\<dots> = \<lparr>successful = successful (record_outcome batch results (k, r)) @ successesOf rs,
      failed = failed (record_outcome batch results (k, r)) @ failuresOf (drop (Suc k) batch) rs\<rparr>"
    by (rule ih)
  also have "\<dots> = \<lparr>successful = successful results @ successesOf (r # rs),
      failed = failed results @ failuresOf (drop k batch) (r # rs)\<rparr>"
    by (cases r) (simp_all add: d record_outcome_def successesOf_def failuresOf_def)
  finally show ?case .
qed

lemma foldl_record_outcome:
  "length rs = length batch \<Longrightarrow>
   foldl (record_outcome batch) results (List.enumerate 0 rs) =
     \<lparr>successful = successful results @ successesOf rs,
      failed = failed results @ failuresOf batch rs\<rparr>"
  using foldl_record_outcome_aux[of rs batch 0 results] by simp

lemma successesOf_append: "successesOf (rs @ rs') = successesOf rs @ successesOf rs'"
  by (simp add: successesOf_def map_filter_def)

lemma failuresOf_append:
  "length xs = length rs \<Longrightarrow> failuresOf (xs @ ys) (rs @ rs') = failuresOf xs rs @ failuresOf ys rs'"
  by (simp add: failuresOf_def map_filter_def)

lemma ingestLoop_accounts:
  "i \<le> length inputs \<Longrightarrow>
   ingestLoop ingest db inputs i results =
     (case allSettled ingest db (drop i inputs) of
        (rs, db') \<Rightarrow>
          (\<lparr>successful = successful results @ successesOf rs,
            failed = failed results @ failuresOf (drop i inputs) rs\<rparr>, db'))"
proof (induction ingest db inputs i results rule: ingestLoop.induct)
  case (1 ingest db inputs i results)
  show ?case
  proof (cases "i < length inputs")
    case False
    then show ?thesis using "1.prems"
      by (subst ingestLoop.simps) (simp add: successesOf_def failuresOf_def)
  next
    case True
    let ?batch = "take CONCURRENCY (drop i inputs)"
    let ?rest = "drop (i + CONCURRENCY) inputs"
    obtain rs db' where b: "allSettled ingest db ?batch = (rs, db')"
      by (cases "allSettled ingest db ?batch")
    obtain rs' db'' where r: "allSettled ingest db' ?rest = (rs', db'')"
      by (cases "allSettled ingest db' ?rest")
    have len: "length rs = length ?batch" using allSettled_length[OF b] by simp
    have split: "drop i inputs = ?batch @ ?rest"
      by (metis append_take_drop_id drop_drop add.commute)
    have whole: "allSettled ingest db (drop i inputs) = (rs @ rs', db'')"
      using allSettled_append[of ingest db ?batch ?rest] b r split by simp
    have fail: "failuresOf (drop i inputs) (rs @ rs') = failuresOf ?batch rs @ failuresOf ?rest rs'"
      using failuresOf_append[of ?batch rs ?rest rs'] len split by simp
    show ?thesis
    proof (cases "i + CONCURRENCY \<le> length inputs")
      case le: True
      have "ingestLoop ingest db inputs i results =
              ingestLoop ingest db' inputs (i + CONCURRENCY)
                (foldl (record_outcome ?batch) results (List.enumerate 0 rs))"
        using True b by (subst ingestLoop.simps) (simp add: Let_def)
      also have "\<dots> = (\<lparr>successful = (successful results @ successesOf rs) @ successesOf rs',
            failed = (failed results @ failuresOf ?batch rs) @ failuresOf ?rest rs'\<rparr>, db'')"
        using "1.IH"[OF True refl b[symmetric] le] r foldl_record_outcome[OF len, of results]
        by simp
      finally show ?thesis unfolding whole using fail by (simp add: successesOf_append)
    next
      case gt: False
      then have rest: "?rest = []" by simp
      then have r': "rs' = []" "db'' = db'" using r by simp_all
      have "ingestLoop ingest db inputs i results =
              ingestLoop ingest db' inputs (i + CONCURRENCY)
                (foldl (record_outcome ?batch) results (List.enumerate 0 rs))"
        using True b by (subst ingestLoop.simps) (simp add: Let_def)
      also have "\<dots> = (foldl (record_outcome ?batch) results (List.enumerate 0 rs), db')"
        using gt by (subst ingestLoop.simps) simp
      finally have eq: "ingestLoop ingest db inputs i results =
          (foldl (record_outcome ?batch) results (List.enumerate 0 rs), db')" .
      have "failuresOf ?rest rs' = []" "successesOf rs' = []"
        using r' rest by (simp_all add: successesOf_def failuresOf_def)
      then show ?thesis
        unfolding eq whole foldl_record_outcome[OF len, of results] using fail r'
        by (simp add: successesOf_append)
    qed
  qed
qed

lemma partition_length:
  "length xs = length rs \<Longrightarrow> length (successesOf rs) + length (failuresOf xs rs) = length rs"
  by (induction xs rs rule: list_induct2)
    (auto simp: successesOf_def failuresOf_def split: sum.splits)

lemma failuresOf_inputs:
  "length xs = length rs \<Longrightarrow>
   map failedInput (failuresOf xs rs) = map fst (filter (\<lambda>(x, r). isl r) (zip xs rs))"
  by (induction xs rs rule: list_induct2)
    (auto simp: failuresOf_def split: sum.splits)

text \<open>
  Claim C8. \<open>ingestBatch\<close> settles every input, whatever happened to the ones before
  it: there is one outcome per input, in input order. Its result lists the values of the
  fulfilled outcomes under \<open>successful\<close> and the inputs of the rejected ones, with their
  messages, under \<open>failed\<close>; so each input is counted in exactly one of the two lists,
  and the lengths of the two lists add up to the number of inputs.
\<close>

theorem ingestBatch_accounts_for_every_input:
  "length (fst (allSettled ingest db inputs)) = length inputs
   \<and> ingestBatch ingest db inputs =
       (\<lparr>successful = successesOf (fst (allSettled ingest db inputs)),
         failed = failuresOf inputs (fst (allSettled ingest db inputs))\<rparr>,
        snd (allSettled ingest db inputs))
   \<and> map failedInput (failed (fst (ingestBatch ingest db inputs))) =
       map fst (filter (\<lambda>(x, r). isl r) (zip inputs (fst (allSettled ingest db inputs))))
   \<and> length (successful (fst (ingestBatch ingest db inputs))) =
       length (filter (\<lambda>(x, r). \<not> isl r) (zip inputs (fst (allSettled ingest db inputs))))
   \<and> length (successful (fst (ingestBatch ingest db inputs)))
       + length (failed (fst (ingestBatch ingest db inputs))) = length inputs"
proof -
  obtain rs db' where a: "allSettled ingest db inputs = (rs, db')"
    by (cases "allSettled ingest db inputs")
  have len: "length rs = length inputs" by (rule allSettled_length[OF a])
  have b: "ingestBatch ingest db inputs =
      (\<lparr>successful = successesOf rs, failed = failuresOf inputs rs\<rparr>, db')"
    using ingestLoop_accounts[of 0 inputs ingest db "\<lparr>successful = [], failed = []\<rparr>"] a
    by (simp add: ingestBatch_def)
  have s: "length (successesOf rs) = length (filter (\<lambda>(x, r). \<not> isl r) (zip inputs rs))"
    using len[symmetric]
    by (induction inputs rs rule: list_induct2) (auto simp: successesOf_def split: sum.splits)
  show ?thesis
    using a b len s partition_length[of inputs rs] failuresOf_inputs[of inputs rs] by simp
qed

text \<open>
  Seven documents against a service that rejects every title starting with \<open>x\<close>: the
  two rejections, one of them in the first batch of five, stop nothing.
\<close>

definition exampleIngest :: "(unit, nat) ingestDocument" where
  "exampleIngest db x =
     (if take 1 (title x) = ''x'' then (Inl (Some ''embedding failed''), db)
      else (Inr \<lparr>ingestedDocumentId = title x, ingestedChunks = 1, ingestedTokens = length (content x)\<rparr>,
            Suc db))"

definition exampleDoc :: "string \<Rightarrow> unit IngestDocumentInput" where
  "exampleDoc t = \<lparr>versionId = ''cpp17'', title = t, content = ''text'', metadata = ()\<rparr>"

theorem ingestBatch_accounts_for_every_input_witness:
  "map ingestedDocumentId (successful (fst (ingestBatch exampleIngest 0
      (map exampleDoc [''a'', ''xb'', ''c'', ''d'', ''e'', ''f'', ''xg''])))) = [''a'', ''c'', ''d'', ''e'', ''f'']
   \<and> map (title \<circ> failedInput) (failed (fst (ingestBatch exampleIngest 0
      (map exampleDoc [''a'', ''xb'', ''c'', ''d'', ''e'', ''f'', ''xg''])))) = [''xb'', ''xg'']
   \<and> snd (ingestBatch exampleIngest 0
      (map exampleDoc [''a'', ''xb'', ''c'', ''d'', ''e'', ''f'', ''xg''])) = 5"
  by (simp add: ingestBatch_accounts_for_every_input exampleIngest_def exampleDoc_def
      successesOf_def failuresOf_def)

section \<open>JavaScript strings\<close>

text \<open>
  A JavaScript string is a sequence of UTF-16 code units, here natural numbers;
  \<open>length\<close> counts code units, as \<open>String.prototype.length\<close> does. \<open>js\<close> turns
  an ASCII literal into its code units.
\<close>

type_synonym jsstring = "nat list"

definition js :: "string \<Rightarrow> jsstring" where
  "js s = map of_char s"

text \<open>The code units that \<open>trim\<close> strips and \<open>\s\<close> matches: white space and line
  terminators.\<close>

definition isLineTerminator :: "nat \<Rightarrow> bool" where
  "isLineTerminator c = (c = 10 \<or> c = 13 \<or> c = 8232 \<or> c = 8233)"

definition isWhiteSpace :: "nat \<Rightarrow> bool" where
  "isWhiteSpace c =
     (c = 9 \<or> c = 11 \<or> c = 12 \<or> c = 32 \<or> c = 160 \<or> c = 5760 \<or> (8192 \<le> c \<and> c \<le> 8202)
      \<or> c = 8239 \<or> c = 8287 \<or> c = 12288 \<or> c = 65279 \<or> isLineTerminator c)"

definition trim :: "jsstring \<Rightarrow> jsstring" where
  "trim s = rev (dropWhile isWhiteSpace (rev (dropWhile isWhiteSpace s)))"

text \<open>\<open>s.slice(b, e)\<close>: a negative index counts from the end, both are clamped to the
  string, and an empty range gives the empty string.\<close>

definition slice :: "'a list \<Rightarrow> int \<Rightarrow> int \<Rightarrow> 'a list" where
  "slice s b e =
     (let len = int (length s);
          from = (if b < 0 then max (len + b) 0 else min b len);
          to = (if e < 0 then max (len + e) 0 else min e len)
      in take (nat (to - from)) (drop (nat from) s))"

text \<open>\<open>s.lastIndexOf(p)\<close>: the greatest index at which \<open>p\<close> occurs in \<open>s\<close>, or -1.\<close>

fun lastIndexFrom :: "'a list \<Rightarrow> 'a list \<Rightarrow> nat \<Rightarrow> int" where
  "lastIndexFrom s p 0 = (if prefix p s then 0 else -1)"
| "lastIndexFrom s p (Suc k) =
     (if prefix p (drop (Suc k) s) then int (Suc k) else lastIndexFrom s p k)"

definition lastIndexOf :: "'a list \<Rightarrow> 'a list \<Rightarrow> int" where
  "lastIndexOf s p =
     (if length p \<le> length s then lastIndexFrom s p (length s - length p) else -1)"

section \<open>Text chunking\<close>

definition DEFAULT_MAX_TOKENS :: int where
  "DEFAULT_MAX_TOKENS = 500"

definition DEFAULT_OVERLAP_TOKENS :: int where
  "DEFAULT_OVERLAP_TOKENS = 50"

definition CHARS_PER_TOKEN :: int where
  "CHARS_PER_TOKEN = 4"

text \<open>The options are integers where given; an absent option takes its default.\<close>

record ChunkingOptions =
  maxTokens :: "int option"
  overlapTokens :: "int option"

text \<open>
  One pass of the loop body up to the \<open>push\<close>: the end of the chunk that starts at
  \<open>startIndex\<close>, moved back to a paragraph, sentence or word break found in the last
  200 characters when the chunk does not reach the end of the text.
\<close>

definition chunkEnd :: "jsstring \<Rightarrow> int \<Rightarrow> int \<Rightarrow> int" where
  "chunkEnd text maxChars startIndex =
     (let endIndex = startIndex + maxChars in
      if endIndex < int (length text) then
        (let searchStart = max (startIndex + maxChars - 200) startIndex;
             searchText = slice text searchStart endIndex;
             paragraphBreak = lastIndexOf searchText (js ''\<newline>\<newline>'')
         in if paragraphBreak \<noteq> -1 then searchStart + paragraphBreak + 2
            else
              (let sentenceBreak =
                     max (max (lastIndexOf searchText (js ''. ''))
                              (lastIndexOf searchText (js ''.\<newline>'')))
                         (max (lastIndexOf searchText (js ''? ''))
                              (lastIndexOf searchText (js ''! '')))
               in if sentenceBreak \<noteq> -1 then searchStart + sentenceBreak + 2
                  else
                    (let wordBreak = lastIndexOf searchText (js '' '')
                     in if wordBreak \<noteq> -1 then searchStart + wordBreak + 1 else endIndex)))
      else endIndex)"

text \<open>
  The \<open>while\<close> loop. Nothing in it bounds the number of passes, so the model is a
  partial function: \<open>None\<close> stands for a loop that never ends.
\<close>

partial_function (option) chunkLoop ::
  "jsstring \<Rightarrow> int \<Rightarrow> int \<Rightarrow> int \<Rightarrow> jsstring list \<Rightarrow> jsstring list option" where
  "chunkLoop text maxChars overlapChars startIndex chunks =
     (if startIndex < int (length text) then
        (if chunkEnd text maxChars startIndex - overlapChars \<ge> int (length text)
         then Some (chunks @ [trim (slice text startIndex (chunkEnd text maxChars startIndex))])
         else chunkLoop text maxChars overlapChars
                (chunkEnd text maxChars startIndex - overlapChars)
                (chunks @ [trim (slice text startIndex (chunkEnd text maxChars startIndex))]))
      else Some chunks)"

declare chunkLoop.simps [code]

definition chunkText :: "jsstring \<Rightarrow> ChunkingOptions \<Rightarrow> jsstring list option" where
  "chunkText text options =
     (let maxTokens' = (case maxTokens options of Some n \<Rightarrow> n | None \<Rightarrow> DEFAULT_MAX_TOKENS);
          overlapTokens' = (case overlapTokens options of Some n \<Rightarrow> n | None \<Rightarrow> DEFAULT_OVERLAP_TOKENS);
          maxChars = maxTokens' * CHARS_PER_TOKEN;
          overlapChars = overlapTokens' * CHARS_PER_TOKEN
      in if int (length text) \<le> maxChars then Some [text]
         else map_option (filter (\<lambda>chunk. length chunk > 0))
                (chunkLoop text maxChars overlapChars 0 []))"

definition estimateTokenCount :: "jsstring \<Rightarrow> int" where
  "estimateTokenCount text = \<lceil>real (length text) / real_of_int CHARS_PER_TOKEN\<rceil>"

subsection \<open>Bounds on the helpers\<close>

lemma lastIndexFrom_range:
  "lastIndexFrom s p k = -1 \<or> (0 \<le> lastIndexFrom s p k \<and> lastIndexFrom s p k \<le> int k)"
  by (induction k) auto

lemma lastIndexOf_range:
  "lastIndexOf s p \<noteq> -1 \<Longrightarrow>
   0 \<le> lastIndexOf s p \<and> lastIndexOf s p + int (length p) \<le> int (length s)"
  using lastIndexFrom_range[of s p "length s - length p"]
  by (auto simp: lastIndexOf_def split: if_splits)

lemma slice_length_le: "0 \<le> b \<Longrightarrow> 0 \<le> e \<Longrightarrow> int (length (slice s b e)) \<le> max 0 (e - b)"
  by (auto simp: slice_def Let_def min_def max_def)

lemma slice_length_inside:
  "0 \<le> b \<Longrightarrow> b \<le> e \<Longrightarrow> e \<le> int (length s) \<Longrightarrow> int (length (slice s b e)) = e - b"
  by (auto simp: slice_def Let_def min_def max_def)

lemma trim_length: "length (trim s) \<le> length s"
proof -
  have "length (trim s) = length (dropWhile isWhiteSpace (rev (dropWhile isWhiteSpace s)))"
    by (simp add: trim_def)
  also have "\<dots> \<le> length (rev (dropWhile isWhiteSpace s))" by (rule length_dropWhile_le)
  also have "\<dots> \<le> length s" by (simp add: length_dropWhile_le)
  finally show ?thesis .
qed

lemma chunkEnd_range:
  assumes "0 \<le> startIndex" "200 \<le> maxChars"
  shows "startIndex + maxChars - 199 \<le> chunkEnd text maxChars startIndex
         \<and> chunkEnd text maxChars startIndex \<le> startIndex + maxChars"
proof (cases "startIndex + maxChars < int (length text)")
  case False
  then show ?thesis by (simp add: chunkEnd_def Let_def)
next
  case True
  define searchStart where "searchStart = startIndex + maxChars - 200"
  define searchText where "searchText = slice text searchStart (startIndex + maxChars)"
  have ss: "max (startIndex + maxChars - 200) startIndex = searchStart"
    using assms by (simp add: searchStart_def)
  have len: "int (length searchText) = 200"
    unfolding searchText_def
    using slice_length_inside[of searchStart "startIndex + maxChars" "text"] assms True
    by (simp add: searchStart_def)
  have two: "lastIndexOf searchText p \<noteq> -1 \<Longrightarrow> length p = 2 \<Longrightarrow>
      0 \<le> lastIndexOf searchText p \<and> lastIndexOf searchText p \<le> 198" for p
    using lastIndexOf_range[of searchText p] len by simp
  have one: "lastIndexOf searchText p \<noteq> -1 \<Longrightarrow> length p = 1 \<Longrightarrow>
      0 \<le> lastIndexOf searchText p \<and> lastIndexOf searchText p \<le> 199" for p
    using lastIndexOf_range[of searchText p] len by simp
  define pb where "pb = lastIndexOf searchText (js ''\<newline>\<newline>'')"
  define s1 where "s1 = lastIndexOf searchText (js ''. '')"
  define s2 where "s2 = lastIndexOf searchText (js ''.\<newline>'')"
  define s3 where "s3 = lastIndexOf searchText (js ''? '')"
  define s4 where "s4 = lastIndexOf searchText (js ''! '')"
  define wb where "wb = lastIndexOf searchText (js '' '')"
  have pbr: "pb \<noteq> -1 \<Longrightarrow> 0 \<le> pb \<and> pb \<le> 198"
    unfolding pb_def by (rule two) (simp_all add: js_def)
  have s1r: "s1 = -1 \<or> (0 \<le> s1 \<and> s1 \<le> 198)"
    unfolding s1_def using two[of "js ''. ''"] by (auto simp: js_def)
  have s2r: "s2 = -1 \<or> (0 \<le> s2 \<and> s2 \<le> 198)"
    unfolding s2_def using two[of "js ''.\<newline>''"] by (auto simp: js_def)
  have s3r: "s3 = -1 \<or> (0 \<le> s3 \<and> s3 \<le> 198)"
    unfolding s3_def using two[of "js ''? ''"] by (auto simp: js_def)
  have s4r: "s4 = -1 \<or> (0 \<le> s4 \<and> s4 \<le> 198)"
    unfolding s4_def using two[of "js ''! ''"] by (auto simp: js_def)
  have wbr: "wb \<noteq> -1 \<Longrightarrow> 0 \<le> wb \<and> wb \<le> 199"
    unfolding wb_def by (rule one) (simp_all add: js_def)
  have e: "chunkEnd text maxChars startIndex =
      (if pb \<noteq> -1 then searchStart + pb + 2
       else if max (max s1 s2) (max s3 s4) \<noteq> -1 then searchStart + max (max s1 s2) (max s3 s4) + 2
       else if wb \<noteq> -1 then searchStart + wb + 1 else startIndex + maxChars)"
    using True
    by (simp add: chunkEnd_def Let_def ss searchText_def[symmetric] pb_def s1_def s2_def s3_def
        s4_def wb_def)
  show ?thesis
    unfolding e using pbr s1r s2r s3r s4r wbr
    by (auto simp: searchStart_def max_def)
qed

subsection \<open>The loop returns when the overlap leaves room to advance\<close>

lemma chunkLoop_returns:
  assumes ov: "0 \<le> overlapChars" "overlapChars + 200 \<le> maxChars"
  shows "0 \<le> startIndex \<Longrightarrow> list_all (\<lambda>c. int (length c) \<le> maxChars) chunks \<Longrightarrow>
         \<exists>r. chunkLoop text maxChars overlapChars startIndex chunks = Some r
              \<and> list_all (\<lambda>c. int (length c) \<le> maxChars) r"
proof (induction "nat (int (length text) - startIndex)" arbitrary: startIndex chunks rule: less_induct)
  case less
  show ?case
  proof (cases "startIndex < int (length text)")
    case False
    then show ?thesis using less.prems(2) by (subst chunkLoop.simps) simp
  next
    case True
    define e where "e = chunkEnd text maxChars startIndex"
    define chunk where "chunk = trim (slice text startIndex e)"
    have mc: "200 \<le> maxChars" using ov by simp
    have er: "startIndex + maxChars - 199 \<le> e" "e \<le> startIndex + maxChars"
      using chunkEnd_range[OF less.prems(1) mc, of "text"] by (simp_all add: e_def)
    have "int (length chunk) \<le> int (length (slice text startIndex e))"
      unfolding chunk_def using trim_length[of "slice text startIndex e"] by simp
    also have "\<dots> \<le> max 0 (e - startIndex)"
      using slice_length_le[of startIndex e "text"] less.prems(1) er mc by simp
    also have "\<dots> \<le> maxChars" using er mc by simp
    finally have cl: "int (length chunk) \<le> maxChars" .
    then have acc: "list_all (\<lambda>c. int (length c) \<le> maxChars) (chunks @ [chunk])"
      using less.prems(2) by simp
    have adv: "startIndex < e - overlapChars" using er ov by simp
    show ?thesis
    proof (cases "int (length text) \<le> e - overlapChars")
      case True
      then show ?thesis using \<open>startIndex < int (length text)\<close> acc
        by (subst chunkLoop.simps) (simp add: e_def[symmetric] chunk_def[symmetric])
    next
      case False
      have m: "nat (int (length text) - (e - overlapChars)) < nat (int (length text) - startIndex)"
        using adv False by simp
      have nn: "0 \<le> e - overlapChars" using adv less.prems(1) by simp
      from less.hyps[OF m nn acc] obtain r where
        r: "chunkLoop text maxChars overlapChars (e - overlapChars) (chunks @ [chunk]) = Some r"
        and rl: "list_all (\<lambda>c. int (length c) \<le> maxChars) r" by blast
      have "chunkLoop text maxChars overlapChars startIndex chunks = Some r"
        using \<open>startIndex < int (length text)\<close> False r
        by (subst chunkLoop.simps) (simp add: e_def[symmetric] chunk_def[symmetric])
      then show ?thesis using rl by blast
    qed
  qed
qed

lemma estimate_le: "length s \<le> 2000 \<Longrightarrow> estimateTokenCount s \<le> 500"
proof -
  assume "length s \<le> 2000"
  then have "real (length s) / 4 \<le> 500" by simp
  then show ?thesis by (simp add: estimateTokenCount_def CHARS_PER_TOKEN_def ceiling_le_iff)
qed

text \<open>
  Claim C2. With the default options \<open>chunkText\<close> returns, every chunk it returns is at
  most 2000 characters long, which \<open>estimateTokenCount\<close> counts as at most 500 tokens,
  and a text of at most 2000 characters comes back unchanged as the only chunk.
\<close>

theorem chunkText_default_bounds:
  "\<exists>chunks. chunkText text \<lparr>maxTokens = None, overlapTokens = None\<rparr> = Some chunks
     \<and> (\<forall>chunk \<in> set chunks. length chunk \<le> 2000 \<and> estimateTokenCount chunk \<le> 500)
     \<and> (length text \<le> 2000 \<longrightarrow> chunks = [text])"
proof (cases "length text \<le> 2000")
  case True
  then have "chunkText text \<lparr>maxTokens = None, overlapTokens = None\<rparr> = Some [text]"
    by (simp add: chunkText_def DEFAULT_MAX_TOKENS_def DEFAULT_OVERLAP_TOKENS_def CHARS_PER_TOKEN_def)
  then show ?thesis using True estimate_le[of "text"] by simp
next
  case False
  from chunkLoop_returns[of 200 2000 0 "[]" "text"] obtain r where
    r: "chunkLoop text 2000 200 0 [] = Some r" and rl: "list_all (\<lambda>c. int (length c) \<le> 2000) r"
    by auto
  have "chunkText text \<lparr>maxTokens = None, overlapTokens = None\<rparr>
          = Some (filter (\<lambda>chunk. length chunk > 0) r)"
    using False r
    by (simp add: chunkText_def DEFAULT_MAX_TOKENS_def DEFAULT_OVERLAP_TOKENS_def CHARS_PER_TOKEN_def)
  moreover have "\<forall>chunk \<in> set (filter (\<lambda>chunk. length chunk > 0) r).
      length chunk \<le> 2000 \<and> estimateTokenCount chunk \<le> 500"
    using rl estimate_le by (auto simp: list_all_iff)
  ultimately show ?thesis using False by simp
qed

theorem chunkText_default_bounds_witness:
  "chunkText (js ''int main() { return 0; }'') \<lparr>maxTokens = None, overlapTokens = None\<rparr>
     = Some [js ''int main() { return 0; }'']
   \<and> length (js ''int main() { return 0; }'') = 24
   \<and> estimateTokenCount (js ''int main() { return 0; }'') = 6"
proof -
  have l: "length (js ''int main() { return 0; }'') = 24" by (simp add: js_def)
  from chunkText_default_bounds[of "js ''int main() { return 0; }''"] l
  have "chunkText (js ''int main() { return 0; }'') \<lparr>maxTokens = None, overlapTokens = None\<rparr>
     = Some [js ''int main() { return 0; }'']" by auto
  moreover have "estimateTokenCount (js ''int main() { return 0; }'') = 6"
    by (simp add: estimateTokenCount_def CHARS_PER_TOKEN_def l)
  ultimately show ?thesis using l by simp
qed

subsection \<open>A small chunk size with an overlap\<close>

definition loopingText :: jsstring where
  "loopingText = js ''hello world. this is a test! yes''"

lemma looping_ends:
  "length loopingText = 32"
  "chunkEnd loopingText 12 0 = 6"
  "chunkEnd loopingText 12 2 = 13"
  "chunkEnd loopingText 12 9 = 13"
  by (simp_all add: loopingText_def js_def chunkEnd_def slice_def lastIndexOf_def Let_def)

lemma looping_never_returns: "chunkLoop loopingText 12 4 9 chunks \<noteq> Some r"
proof
  assume ret: "chunkLoop loopingText 12 4 9 chunks = Some r"
  have "\<not> (loopingText = loopingText \<and> (12::int) = 12 \<and> (4::int) = 4 \<and> (9::int) = 9)"
  proof (rule chunkLoop.raw_induct[where
        P = "\<lambda>t m ov st ch y. \<not> (t = loopingText \<and> m = 12 \<and> ov = 4 \<and> st = 9)", OF _ ret])
    fix f :: "jsstring \<Rightarrow> int \<Rightarrow> int \<Rightarrow> int \<Rightarrow> jsstring list \<Rightarrow> jsstring list option"
      and t m ov st ch y
    assume ih: "\<And>t m ov st ch y. f t m ov st ch = Some y \<Longrightarrow>
                  \<not> (t = loopingText \<and> m = 12 \<and> ov = 4 \<and> st = 9)"
      and step: "(if st < int (length t)
           then if int (length t) \<le> chunkEnd t m st - ov
                then Some (ch @ [trim (slice t st (chunkEnd t m st))])
                else f t m ov (chunkEnd t m st - ov) (ch @ [trim (slice t st (chunkEnd t m st))])
           else Some ch) = Some y"
    show "\<not> (t = loopingText \<and> m = 12 \<and> ov = 4 \<and> st = 9)"
    proof
      assume a: "t = loopingText \<and> m = 12 \<and> ov = 4 \<and> st = 9"
      with step have "f loopingText 12 4 9 (ch @ [trim (slice loopingText 9 13)]) = Some y"
        by (simp add: looping_ends)
      from ih[OF this] show False by simp
    qed
  qed
  then show False by simp
qed

text \<open>
  Claim C6 at a text of 32 characters with \<open>maxTokens = 3\<close> and \<open>overlapTokens = 1\<close>:
  the start index goes 0, 2, 9 and then stays at 9, because the sentence break found
  four characters on is undone by the overlap of four. \<open>chunkText\<close> does not return.
\<close>

theorem chunkText_small_chunks_diverges:
  "chunkText (js ''hello world. this is a test! yes'') \<lparr>maxTokens = Some 3, overlapTokens = Some 1\<rparr>
     = None"
proof -
  have "chunkLoop loopingText 12 4 0 [] =
          chunkLoop loopingText 12 4 2 [trim (slice loopingText 0 6)]"
    by (subst chunkLoop.simps) (simp add: looping_ends)
  also have "\<dots> = chunkLoop loopingText 12 4 9
                     [trim (slice loopingText 0 6), trim (slice loopingText 2 13)]"
    by (subst chunkLoop.simps) (simp add: looping_ends)
  also have "\<dots> = None"
    using looping_never_returns[of "[trim (slice loopingText 0 6), trim (slice loopingText 2 13)]"]
    by (cases "chunkLoop loopingText 12 4 9
                     [trim (slice loopingText 0 6), trim (slice loopingText 2 13)]") auto
  finally show ?thesis
    by (simp add: chunkText_def CHARS_PER_TOKEN_def loopingText_def[symmetric] looping_ends)
qed

section \<open>The LLM response cache of the document generator\<close>












subsection \<open>Hits and misses\<close>








section \<open>Regular expressions\<close>

text \<open>
  The regular expressions of the compiler services are sequences of a few kinds of
  atoms. None of them has the \<open>u\<close> flag, so they see code units, \<open>\w\<close> and \<open>\d\<close>
  are ASCII classes, and the \<open>i\<close> flag folds the case of ASCII letters only (a code
  unit from 128 on never folds to one below 128).
\<close>

datatype charClass =
    SpaceClass          \<comment> \<open>\<open>\s\<close>\<close>
  | WordClass           \<comment> \<open>\<open>\w\<close>\<close>
  | DigitClass          \<comment> \<open>\<open>\d\<close>\<close>
  | PathClass           \<comment> \<open>\<open>[\w./]\<close>\<close>
  | DotClass            \<comment> \<open>\<open>.\<close>: anything but a line terminator\<close>

definition isDigit :: "nat \<Rightarrow> bool" where
  "isDigit c = (48 \<le> c \<and> c \<le> 57)"

definition isWordChar :: "nat \<Rightarrow> bool" where
  "isWordChar c = ((65 \<le> c \<and> c \<le> 90) \<or> (97 \<le> c \<and> c \<le> 122) \<or> isDigit c \<or> c = 95)"

fun inClass :: "charClass \<Rightarrow> nat \<Rightarrow> bool" where
  "inClass SpaceClass c = isWhiteSpace c"
| "inClass WordClass c = isWordChar c"
| "inClass DigitClass c = isDigit c"
| "inClass PathClass c = (isWordChar c \<or> c = 46 \<or> c = 47)"
| "inClass DotClass c = (\<not> isLineTerminator c)"

datatype atom =
    Lit jsstring                        \<comment> \<open>literal text\<close>
  | LitI jsstring                       \<comment> \<open>literal text under the \<open>i\<close> flag\<close>
  | Greedy charClass nat "nat option"   \<comment> \<open>\<open>c*\<close> (at least 0) or \<open>c+\<close> (at least 1), maybe a group\<close>
  | Lazy charClass nat "nat option"     \<comment> \<open>\<open>c+?\<close>, maybe a group\<close>
  | OneOfI "jsstring list" "nat option" \<comment> \<open>\<open>(a|b)\<close> under the \<open>i\<close> flag, maybe a group\<close>
  | Opt nat                             \<comment> \<open>\<open>x?\<close>\<close>
  | WordBoundary                        \<comment> \<open>\<open>\b\<close>\<close>
  | LineStart                           \<comment> \<open>\<open>^\<close> with the \<open>m\<close> flag\<close>
  | LineEnd                             \<comment> \<open>\<open>$\<close> with the \<open>m\<close> flag\<close>
  | BeforeNewlineOrEnd                  \<comment> \<open>\<open>(?=\n|$)\<close> without the \<open>m\<close> flag\<close>

text \<open>Case folding of the \<open>i\<close> flag, as far as ASCII patterns can tell.\<close>

definition canonicalize :: "nat \<Rightarrow> nat" where
  "canonicalize c = (if 97 \<le> c \<and> c \<le> 122 then c - 32 else c)"

text \<open>The captures made so far, latest first.\<close>

type_synonym captures = "(nat \<times> jsstring) list"

definition capture :: "nat option \<Rightarrow> jsstring \<Rightarrow> captures \<Rightarrow> captures" where
  "capture g txt cs = (case g of None \<Rightarrow> cs | Some n \<Rightarrow> (n, txt) # cs)"

text \<open>The first alternative that succeeds: the order of the list is the order in which
  a backtracking matcher tries.\<close>

fun firstSome :: "('a \<Rightarrow> 'r option) \<Rightarrow> 'a list \<Rightarrow> 'r option" where
  "firstSome f [] = None"
| "firstSome f (x # xs) = (case f x of Some r \<Rightarrow> Some r | None \<Rightarrow> firstSome f xs)"

definition isWordAt :: "jsstring \<Rightarrow> int \<Rightarrow> bool" where
  "isWordAt s i = (0 \<le> i \<and> i < int (length s) \<and> isWordChar (s ! nat i))"

text \<open>
  One atom at position \<open>i\<close>, with the rest of the match as a continuation \<open>k\<close> that
  takes the position and the captures after the atom. A repetition offers its lengths
  in the matcher's order: longest first when greedy, shortest first when lazy.
\<close>

fun matchAtom ::
  "atom \<Rightarrow> jsstring \<Rightarrow> nat \<Rightarrow> captures \<Rightarrow> (nat \<Rightarrow> captures \<Rightarrow> 'r option) \<Rightarrow> 'r option" where
  "matchAtom (Lit l) s i cs k =
     (if take (length l) (drop i s) = l then k (i + length l) cs else None)"
| "matchAtom (LitI l) s i cs k =
     (if map canonicalize (take (length l) (drop i s)) = map canonicalize l
      then k (i + length l) cs else None)"
| "matchAtom (Greedy c lo g) s i cs k =
     firstSome (\<lambda>n. k (i + n) (capture g (take n (drop i s)) cs))
       (rev [lo..<Suc (length (takeWhile (inClass c) (drop i s)))])"
| "matchAtom (Lazy c lo g) s i cs k =
     firstSome (\<lambda>n. k (i + n) (capture g (take n (drop i s)) cs))
       [lo..<Suc (length (takeWhile (inClass c) (drop i s)))]"
| "matchAtom (OneOfI ls g) s i cs k =
     firstSome (\<lambda>l. if map canonicalize (take (length l) (drop i s)) = map canonicalize l
                     then k (i + length l) (capture g (take (length l) (drop i s)) cs) else None) ls"
| "matchAtom (Opt x) s i cs k =
     (case (if i < length s \<and> s ! i = x then k (Suc i) cs else None) of
        Some r \<Rightarrow> Some r
      | None \<Rightarrow> k i cs)"
| "matchAtom WordBoundary s i cs k =
     (if isWordAt s (int i - 1) \<noteq> isWordAt s (int i) then k i cs else None)"
| "matchAtom LineStart s i cs k =
     (if i = 0 \<or> (i \<le> length s \<and> isLineTerminator (s ! (i - 1))) then k i cs else None)"
| "matchAtom LineEnd s i cs k =
     (if i \<ge> length s \<or> isLineTerminator (s ! i) then k i cs else None)"
| "matchAtom BeforeNewlineOrEnd s i cs k =
     (if i \<ge> length s \<or> s ! i = 10 then k i cs else None)"

primrec matchSeq ::
  "atom list \<Rightarrow> jsstring \<Rightarrow> nat \<Rightarrow> captures \<Rightarrow> (nat \<Rightarrow> captures \<Rightarrow> 'r option) \<Rightarrow> 'r option" where
  "matchSeq [] s i cs k = k i cs"
| "matchSeq (a # as) s i cs k = matchAtom a s i cs (\<lambda>j cs'. matchSeq as s j cs' k)"

text \<open>A match: where it starts, where it ends, and its captures.\<close>

record rxMatch =
  matchStart :: nat
  matchEnd :: nat
  groups :: captures

definition matchHere :: "atom list \<Rightarrow> jsstring \<Rightarrow> nat \<Rightarrow> rxMatch option" where
  "matchHere p s i =
     matchSeq p s i [] (\<lambda>j cs. Some \<lparr>matchStart = i, matchEnd = j, groups = cs\<rparr>)"

text \<open>\<open>RegExp.prototype.exec\<close> from \<open>lastIndex\<close>: the leftmost position at or after
  it where the expression matches.\<close>

definition exec :: "atom list \<Rightarrow> jsstring \<Rightarrow> nat \<Rightarrow> rxMatch option" where
  "exec p s lastIndex = firstSome (matchHere p s) [lastIndex..<Suc (length s)]"

text \<open>\<open>RegExp.prototype.test\<close> of an expression without the \<open>g\<close> flag.\<close>

definition test :: "atom list \<Rightarrow> jsstring \<Rightarrow> bool" where
  "test p s = (exec p s 0 \<noteq> None)"


subsection \<open>What a match consumed\<close>




lemma firstSome_None: "firstSome f xs = None \<longleftrightarrow> (\<forall>x \<in> set xs. f x = None)"
  by (induction xs) (auto split: option.splits)







section \<open>Parsing the compiler output (Judge0 provider)\<close>











subsection \<open>The shape of a diagnostic match\<close>














subsection \<open>The matches that the loop sees\<close>





















section \<open>Code validation before compiling\<close>

datatype CompilerErrorCode =
    VALIDATION_FAILED | COMPILE_TIMEOUT | EXECUTE_TIMEOUT | API_ERROR | RATE_LIMITED
  | UNSUPPORTED_STANDARD | FORBIDDEN_CODE

text \<open>A thrown \<open>CompilerError\<close>: its message and its code.\<close>

datatype CompilerError = CompilerError string CompilerErrorCode

definition MAX_CODE_LENGTH :: nat where
  "MAX_CODE_LENGTH = 100000"

record forbiddenPattern =
  pattern :: "atom list"
  reason :: string

record warningPattern =
  warnPattern :: "atom list"
  warning :: string

text \<open>\<open>#include\s*<\s*NAME\<close> under the \<open>i\<close> flag, the common start of five patterns.\<close>

definition includeOf :: "string \<Rightarrow> atom list" where
  "includeOf name =
     [LitI (js ''#include''), Greedy SpaceClass 0 None, LitI (js ''<''), Greedy SpaceClass 0 None,
      LitI (js name)]"

text \<open>\<open>\bNAME\s*\(\<close>, the shape of the patterns for calls.\<close>

definition callOf :: "string \<Rightarrow> atom list" where
  "callOf name = [WordBoundary, Lit (js name), Greedy SpaceClass 0 None, Lit (js ''('')]"

definition FORBIDDEN_PATTERNS :: "forbiddenPattern list" where
  "FORBIDDEN_PATTERNS =
     [\<lparr>pattern = includeOf ''fstream'' @ [Greedy SpaceClass 0 None, LitI (js ''>'')],
       reason = ''File stream operations are not allowed for security''\<rparr>,
      \<lparr>pattern = includeOf ''filesystem'' @ [Greedy SpaceClass 0 None, LitI (js ''>'')],
       reason = ''Filesystem operations are not allowed for security''\<rparr>,
      \<lparr>pattern = includeOf ''sys/'',
       reason = ''System headers are not allowed for security''\<rparr>,
      \<lparr>pattern = includeOf ''unistd.h'' @ [Greedy SpaceClass 0 None, LitI (js ''>'')],
       reason = ''Unix system calls are not allowed for security''\<rparr>,
      \<lparr>pattern = includeOf ''windows.h'' @ [Greedy SpaceClass 0 None, LitI (js ''>'')],
       reason = ''Windows system calls are not allowed for security''\<rparr>,
      \<lparr>pattern = callOf ''system'',
       reason = ''system() calls are not allowed for security''\<rparr>,
      \<lparr>pattern = [WordBoundary, Lit (js ''exec''), Opt 108, Greedy SpaceClass 0 None, Lit (js ''('')],
       reason = ''exec() calls are not allowed for security''\<rparr>,
      \<lparr>pattern = callOf ''execlp'',
       reason = ''execlp() calls are not allowed for security''\<rparr>,
      \<lparr>pattern = callOf ''execv'',
       reason = ''execv() calls are not allowed for security''\<rparr>,
      \<lparr>pattern = callOf ''execvp'',
       reason = ''execvp() calls are not allowed for security''\<rparr>,
      \<lparr>pattern = callOf ''fork'',
       reason = ''fork() calls are not allowed for security''\<rparr>,
      \<lparr>pattern = callOf ''popen'',
       reason = ''popen() calls are not allowed for security''\<rparr>,
      \<lparr>pattern = [Lit (js ''__asm''), WordBoundary],
       reason = ''Inline assembly is not allowed for security''\<rparr>,
      \<lparr>pattern = callOf ''asm'',
       reason = ''Assembly blocks are not allowed for security''\<rparr>,
      \<lparr>pattern = [LitI (js ''#pragma''), Greedy SpaceClass 1 None, LitI (js ''comment''),
                  Greedy SpaceClass 0 None, LitI (js ''(''), Greedy SpaceClass 0 None, LitI (js ''lib'')],
       reason = ''Library pragma directives are not allowed''\<rparr>,
      \<lparr>pattern = callOf ''socket'',
       reason = ''Network socket operations are not allowed''\<rparr>,
      \<lparr>pattern = callOf ''connect'',
       reason = ''Network connect operations are not allowed''\<rparr>,
      \<lparr>pattern = callOf ''bind'',
       reason = ''Network bind operations are not allowed''\<rparr>,
      \<lparr>pattern = callOf ''listen'',
       reason = ''Network listen operations are not allowed''\<rparr>]"

definition WARNING_PATTERNS :: "warningPattern list" where
  "WARNING_PATTERNS =
     [\<lparr>warnPattern = [WordBoundary, Lit (js ''goto''), WordBoundary],
       warning = ''Using goto statement - consider using structured control flow''\<rparr>,
      \<lparr>warnPattern = [WordBoundary, Lit (js ''void''), Greedy SpaceClass 0 None, Lit (js ''*''),
                      Greedy SpaceClass 0 None, Greedy WordClass 1 None, Greedy SpaceClass 0 None,
                      Lit (js ''='')],
       warning = ''Using void pointer - consider using typed pointers or templates''\<rparr>,
      \<lparr>warnPattern = callOf ''malloc'',
       warning = ''Using malloc - consider using new or smart pointers in modern C++''\<rparr>,
      \<lparr>warnPattern = callOf ''free'',
       warning = ''Using free - consider using delete or smart pointers in modern C++''\<rparr>,
      \<lparr>warnPattern = [WordBoundary, Lit (js ''NULL''), WordBoundary],
       warning = ''Using NULL - consider using nullptr in modern C++''\<rparr>]"

record ValidationResult =
  valid :: bool
  error :: "string option"
  errorCode :: "CompilerErrorCode option"
  warnings :: "string list"

definition validateCode :: "jsstring \<Rightarrow> ValidationResult" where
  "validateCode code =
     (if code = [] \<or> length (trim code) = 0 then
        \<lparr>valid = False, error = Some ''Code cannot be empty'',
         errorCode = Some VALIDATION_FAILED, warnings = []\<rparr>
      else if length code > MAX_CODE_LENGTH then
        \<lparr>valid = False, error = Some ''Code exceeds maximum length of 100000 characters'',
         errorCode = Some VALIDATION_FAILED, warnings = []\<rparr>
      else
        (case find (\<lambda>p. test (pattern p) code) FORBIDDEN_PATTERNS of
           Some p \<Rightarrow>
             \<lparr>valid = False, error = Some (reason p), errorCode = Some FORBIDDEN_CODE, warnings = []\<rparr>
         | None \<Rightarrow>
             \<lparr>valid = True, error = None, errorCode = None,
              warnings = map warning (filter (\<lambda>w. test (warnPattern w) code) WARNING_PATTERNS)\<rparr>))"

text \<open>
  \<open>String.prototype.replace\<close> with an expression that has the \<open>g\<close> flag: every
  match, found from left to right without overlap, gives way to the replacement. After
  an empty match the search moves on by one code unit.
\<close>

function replaceFrom :: "atom list \<Rightarrow> jsstring \<Rightarrow> jsstring \<Rightarrow> nat \<Rightarrow> jsstring" where
  "replaceFrom p rep s i =
     (if i > length s then []
      else
        (case matchHere p s i of
           Some m \<Rightarrow>
             if matchEnd m > i then rep @ replaceFrom p rep s (matchEnd m)
             else rep @ take 1 (drop i s) @ replaceFrom p rep s (Suc i)
         | None \<Rightarrow> take 1 (drop i s) @ replaceFrom p rep s (Suc i)))"
  by pat_completeness auto
termination
  by (relation "measure (\<lambda>(p, rep, s, i). Suc (length s) - i)") auto

declare replaceFrom.simps [simp del]

definition replaceAll :: "atom list \<Rightarrow> jsstring \<Rightarrow> jsstring \<Rightarrow> jsstring" where
  "replaceAll p rep s = replaceFrom p rep s 0"

definition sanitizeCode :: "jsstring \<Rightarrow> jsstring" where
  "sanitizeCode code =
     (let sanitized = replaceAll [LineStart, Lit (js ''#!''), Greedy DotClass 0 None, LineEnd]
                        (js ''// [removed shebang]'') code
      in replaceAll [Lit [13]] [10] (replaceAll [Lit [13, 10]] [10] sanitized))"

record PreparedCode =
  preparedCode :: jsstring
  preparedWarnings :: "string list"

definition prepareCode :: "jsstring \<Rightarrow> CompilerError + PreparedCode" where
  "prepareCode code =
     (let sanitized = sanitizeCode code;
          validation = validateCode sanitized
      in if \<not> valid validation then
           Inl (CompilerError
                  (case error validation of Some (c # cs) \<Rightarrow> c # cs | _ \<Rightarrow> ''Validation failed'')
                  (case errorCode validation of Some ec \<Rightarrow> ec | None \<Rightarrow> VALIDATION_FAILED))
         else Inr \<lparr>preparedCode = sanitized, preparedWarnings = warnings validation\<rparr>)"

text \<open>The status that the \<open>catch\<close> blocks of the compile routes give a
  \<open>CompilerError\<close>.\<close>

definition errorStatus :: "CompilerErrorCode \<Rightarrow> nat" where
  "errorStatus code =
     (if code = RATE_LIMITED then 429
      else if code = FORBIDDEN_CODE then 400
      else if code = VALIDATION_FAILED then 400
      else 500)"

text \<open>The parsed body of a compile request.\<close>

record CompileRequest =
  code :: jsstring
  cppStandard :: string
  compileFilename :: "string option"
  compilerFlags :: "string list option"
  timeout :: int

text \<open>What a provider's \<open>compile\<close> may throw.\<close>

datatype thrown = ThrownCompilerError CompilerError | ThrownOther string

text \<open>
  \<open>POST /api/compile\<close>, as far as the status of the answer goes. The body comes as
  \<open>Inl m\<close> when \<open>c.req.json()\<close> throws, else as the outcome of
  \<open>compileRequestSchema.safeParse\<close>; the provider is \<open>None\<close> when none is
  configured. \<open>POST /api/compile/execute\<close> has the same gate and the same \<open>catch\<close>.
\<close>

definition compilePost ::
  "requestCounts \<Rightarrow> string option \<Rightarrow> string option \<Rightarrow> int \<Rightarrow> string + CompileRequest option
     \<Rightarrow> (CompileRequest \<Rightarrow> thrown + 'res) option \<Rightarrow> nat \<times> requestCounts" where
  "compilePost rc forwardedFor realIp now body provider =
     (case rateLimitGate rc forwardedFor realIp now of
        (Some st, rc') \<Rightarrow> (st, rc')
      | (None, rc') \<Rightarrow>
          (case body of
             Inl m \<Rightarrow> (500, rc')
           | Inr None \<Rightarrow> (400, rc')
           | Inr (Some req) \<Rightarrow>
               (case provider of
                  None \<Rightarrow> (503, rc')
                | Some compile \<Rightarrow>
                    (case prepareCode (code req) of
                       Inl (CompilerError msg ec) \<Rightarrow> (errorStatus ec, rc')
                     | Inr prepared \<Rightarrow>
                         (case compile (req\<lparr>code := preparedCode prepared\<rparr>) of
                            Inl (ThrownCompilerError (CompilerError msg ec)) \<Rightarrow> (errorStatus ec, rc')
                          | Inl (ThrownOther m) \<Rightarrow> (500, rc')
                          | Inr result \<Rightarrow> (200, rc'))))))"

subsection \<open>When the code is refused\<close>

text \<open>The two checks that come before the patterns.\<close>

definition emptyOrTooLong :: "jsstring \<Rightarrow> bool" where
  "emptyOrTooLong s = (trim s = [] \<or> length s > 100000)"

definition forbidden :: "jsstring \<Rightarrow> bool" where
  "forbidden s = list_ex (\<lambda>p. test (pattern p) s) FORBIDDEN_PATTERNS"

lemma validateCode_cases:
  "validateCode s =
     (if emptyOrTooLong s then
        \<lparr>valid = False,
         error = Some (if trim s = [] then ''Code cannot be empty''
                       else ''Code exceeds maximum length of 100000 characters''),
         errorCode = Some VALIDATION_FAILED, warnings = []\<rparr>
      else if forbidden s then
        \<lparr>valid = False,
         error = Some (reason (the (find (\<lambda>p. test (pattern p) s) FORBIDDEN_PATTERNS))),
         errorCode = Some FORBIDDEN_CODE, warnings = []\<rparr>
      else
        \<lparr>valid = True, error = None, errorCode = None,
         warnings = map warning (filter (\<lambda>w. test (warnPattern w) s) WARNING_PATTERNS)\<rparr>)"
proof -
  have e: "(s = [] \<or> length (trim s) = 0) = (trim s = [])"
    by (auto simp: trim_def)
  have f: "forbidden s \<longleftrightarrow> find (\<lambda>p. test (pattern p) s) FORBIDDEN_PATTERNS \<noteq> None"
    by (auto simp: forbidden_def list_ex_iff find_None_iff)
  show ?thesis
    unfolding validateCode_def e
    by (auto simp: emptyOrTooLong_def MAX_CODE_LENGTH_def f split: option.splits)
qed


lemma reasons_nonempty: "p \<in> set FORBIDDEN_PATTERNS \<Longrightarrow> reason p \<noteq> []"
  by (auto simp: FORBIDDEN_PATTERNS_def)

lemma find_forbidden:
  "forbidden s \<Longrightarrow>
   \<exists>p \<in> set FORBIDDEN_PATTERNS. test (pattern p) s \<and>
      find (\<lambda>p. test (pattern p) s) FORBIDDEN_PATTERNS = Some p"
proof -
  assume "forbidden s"
  then have "find (\<lambda>p. test (pattern p) s) FORBIDDEN_PATTERNS \<noteq> None"
    by (auto simp: forbidden_def list_ex_iff find_None_iff)
  then obtain p where p: "find (\<lambda>p. test (pattern p) s) FORBIDDEN_PATTERNS = Some p"
    by auto
  then have "p \<in> set FORBIDDEN_PATTERNS \<and> test (pattern p) s"
    by (auto simp: find_Some_iff)
  with p show ?thesis by auto
qed

lemma prepareCode_cases:
  "prepareCode c =
     (if emptyOrTooLong (sanitizeCode c) then
        Inl (CompilerError (if trim (sanitizeCode c) = [] then ''Code cannot be empty''
                            else ''Code exceeds maximum length of 100000 characters'')
               VALIDATION_FAILED)
      else if forbidden (sanitizeCode c) then
        Inl (CompilerError
               (reason (the (find (\<lambda>p. test (pattern p) (sanitizeCode c)) FORBIDDEN_PATTERNS)))
               FORBIDDEN_CODE)
      else
        Inr \<lparr>preparedCode = sanitizeCode c,
             preparedWarnings =
               map warning (filter (\<lambda>w. test (warnPattern w) (sanitizeCode c)) WARNING_PATTERNS)\<rparr>)"
proof (cases "\<not> emptyOrTooLong (sanitizeCode c) \<and> forbidden (sanitizeCode c)")
  case True
  from find_forbidden[of "sanitizeCode c"] True obtain p where
    p: "p \<in> set FORBIDDEN_PATTERNS"
    "find (\<lambda>p. test (pattern p) (sanitizeCode c)) FORBIDDEN_PATTERNS = Some p" by auto
  then obtain ch rest where "reason p = ch # rest"
    using reasons_nonempty[of p] by (cases "reason p") auto
  then show ?thesis using True p
    by (simp add: prepareCode_def validateCode_cases Let_def)
next
  case False
  then show ?thesis
    by (auto simp: prepareCode_def validateCode_cases Let_def)
qed

text \<open>
  Claim C9. \<open>prepareCode\<close> throws a \<open>CompilerError\<close> exactly when the sanitized code
  is empty or all white space, is longer than 100000 characters, or matches one of the
  forbidden patterns. In the first two cases the error's code is \<open>VALIDATION_FAILED\<close>;
  otherwise it is \<open>FORBIDDEN_CODE\<close> and the message is the reason of a forbidden
  pattern that matches. When it does not throw it returns the sanitized code with the
  warnings of the warning patterns that match, in table order. The compile route answers
  either code with status 400.
\<close>

theorem prepareCode_throws_iff:
  "(isl (prepareCode c) \<longleftrightarrow> emptyOrTooLong (sanitizeCode c) \<or> forbidden (sanitizeCode c))
   \<and> (emptyOrTooLong (sanitizeCode c) \<longrightarrow>
        (\<exists>msg. prepareCode c = Inl (CompilerError msg VALIDATION_FAILED)))
   \<and> (\<not> emptyOrTooLong (sanitizeCode c) \<and> forbidden (sanitizeCode c) \<longrightarrow>
        (\<exists>p \<in> set FORBIDDEN_PATTERNS. test (pattern p) (sanitizeCode c) \<and>
           prepareCode c = Inl (CompilerError (reason p) FORBIDDEN_CODE)))
   \<and> (\<not> emptyOrTooLong (sanitizeCode c) \<and> \<not> forbidden (sanitizeCode c) \<longrightarrow>
        prepareCode c =
          Inr \<lparr>preparedCode = sanitizeCode c,
               preparedWarnings =
                 map warning (filter (\<lambda>w. test (warnPattern w) (sanitizeCode c)) WARNING_PATTERNS)\<rparr>)
   \<and> errorStatus FORBIDDEN_CODE = 400 \<and> errorStatus VALIDATION_FAILED = 400
   \<and> (fst (rateLimitGate rc xff xri now) = None \<and> prepareCode (code req) = Inl (CompilerError msg ec) \<longrightarrow>
        fst (compilePost rc xff xri now (Inr (Some req)) (Some compile)) = errorStatus ec)"
proof (intro conjI impI)
  show "isl (prepareCode c) \<longleftrightarrow> emptyOrTooLong (sanitizeCode c) \<or> forbidden (sanitizeCode c)"
    by (simp add: prepareCode_cases)
  show "errorStatus FORBIDDEN_CODE = 400" "errorStatus VALIDATION_FAILED = 400"
    by (simp_all add: errorStatus_def)
next
  assume "emptyOrTooLong (sanitizeCode c)"
  then show "\<exists>msg. prepareCode c = Inl (CompilerError msg VALIDATION_FAILED)"
    by (simp add: prepareCode_cases)
next
  assume a: "\<not> emptyOrTooLong (sanitizeCode c) \<and> forbidden (sanitizeCode c)"
  from find_forbidden[of "sanitizeCode c"] a obtain p where
    "p \<in> set FORBIDDEN_PATTERNS" "test (pattern p) (sanitizeCode c)"
    "find (\<lambda>p. test (pattern p) (sanitizeCode c)) FORBIDDEN_PATTERNS = Some p" by auto
  then show "\<exists>p \<in> set FORBIDDEN_PATTERNS. test (pattern p) (sanitizeCode c) \<and>
           prepareCode c = Inl (CompilerError (reason p) FORBIDDEN_CODE)"
    using a by (auto simp: prepareCode_cases)
next
  assume "\<not> emptyOrTooLong (sanitizeCode c) \<and> \<not> forbidden (sanitizeCode c)"
  then show "prepareCode c =
          Inr \<lparr>preparedCode = sanitizeCode c,
               preparedWarnings =
                 map warning (filter (\<lambda>w. test (warnPattern w) (sanitizeCode c)) WARNING_PATTERNS)\<rparr>"
    by (simp add: prepareCode_cases)
next
  assume "fst (rateLimitGate rc xff xri now) = None \<and> prepareCode (code req) = Inl (CompilerError msg ec)"
  then show "fst (compilePost rc xff xri now (Inr (Some req)) (Some compile)) = errorStatus ec"
    by (cases "rateLimitGate rc xff xri now") (simp add: compilePost_def)
qed

subsection \<open>Running the patterns on small inputs\<close>

lemma replaceFrom_past: "i > length s \<Longrightarrow> replaceFrom p rep s i = []"
  by (subst replaceFrom.simps) simp

lemma replaceFrom_skip:
  "i \<le> length s \<Longrightarrow> matchHere p s i = None \<Longrightarrow>
   replaceFrom p rep s i = take 1 (drop i s) @ replaceFrom p rep s (Suc i)"
  by (subst replaceFrom.simps) simp

lemma replaceFrom_hit:
  "i \<le> length s \<Longrightarrow> matchHere p s i = Some m \<Longrightarrow> matchEnd m > i \<Longrightarrow>
   replaceFrom p rep s i = rep @ replaceFrom p rep s (matchEnd m)"
  by (subst replaceFrom.simps) simp

lemmas rx_eval =
  test_def exec_def matchHere_def js_def callOf_def includeOf_def isWordAt_def isWordChar_def
  isDigit_def isWhiteSpace_def isLineTerminator_def canonicalize_def capture_def upt_rec

lemmas replace_eval =
  sanitizeCode_def replaceAll_def replaceFrom_past replaceFrom_skip replaceFrom_hit

lemma sanitize_system: "sanitizeCode (js ''system(0);'') = js ''system(0);''"
  by (simp add: replace_eval rx_eval)

lemma sanitize_blank: "sanitizeCode (js ''  '') = js ''  ''"
  by (simp add: replace_eval rx_eval)

lemma sanitize_null: "sanitizeCode (js ''NULL'') = js ''NULL''"
  by (simp add: replace_eval rx_eval)

lemma sanitize_shebang:
  "sanitizeCode (js ''#!sh\<newline>x'') = js ''// [removed shebang]\<newline>x''"
  by (simp add: replace_eval rx_eval)

lemma forbidden_system: "forbidden (js ''system(0);'')"
proof -
  have "test (callOf ''system'') (js ''system(0);'')" by (simp add: rx_eval)
  then show ?thesis by (simp add: forbidden_def FORBIDDEN_PATTERNS_def)
qed

lemma not_forbidden_null: "\<not> forbidden (js ''NULL'')"
  by (simp add: forbidden_def FORBIDDEN_PATTERNS_def rx_eval)

lemma warnings_null:
  "map warning (filter (\<lambda>w. test (warnPattern w) (js ''NULL'')) WARNING_PATTERNS) =
     [''Using NULL - consider using nullptr in modern C++'']"
  by (simp add: WARNING_PATTERNS_def rx_eval)

theorem prepareCode_throws_iff_witness:
  "isl (prepareCode (js ''system(0);''))
   \<and> (\<exists>p \<in> set FORBIDDEN_PATTERNS.
        prepareCode (js ''system(0);'') = Inl (CompilerError (reason p) FORBIDDEN_CODE))
   \<and> (\<exists>msg. prepareCode (js ''  '') = Inl (CompilerError msg VALIDATION_FAILED))
   \<and> prepareCode (js ''NULL'') =
       Inr \<lparr>preparedCode = js ''NULL'',
            preparedWarnings = [''Using NULL - consider using nullptr in modern C++'']\<rparr>
   \<and> fst (compilePost Map.empty None None 0
          (Inr (Some \<lparr>code = js ''system(0);'', cppStandard = ''cpp17'', compileFilename = None,
                       compilerFlags = None, timeout = 30000\<rparr>))
          (Some (\<lambda>req. Inr ()))) = 400"
proof -
  let ?req = "\<lparr>code = js ''system(0);'', cppStandard = ''cpp17'', compileFilename = None,
                       compilerFlags = None, timeout = 30000\<rparr>"
  note T = prepareCode_throws_iff
  note T1 = T[THEN conjunct1]
  note T2 = T[THEN conjunct2, THEN conjunct1]
  note T3 = T[THEN conjunct2, THEN conjunct2, THEN conjunct1]
  note T4 = T[THEN conjunct2, THEN conjunct2, THEN conjunct2, THEN conjunct1]
  note T5 = T[THEN conjunct2, THEN conjunct2, THEN conjunct2, THEN conjunct2, THEN conjunct1]
  note T7 = T[THEN conjunct2, THEN conjunct2, THEN conjunct2, THEN conjunct2, THEN conjunct2,
              THEN conjunct2]
  have ne: "\<not> emptyOrTooLong (js ''system(0);'')" "\<not> emptyOrTooLong (js ''NULL'')"
    "emptyOrTooLong (js ''  '')"
    by (simp_all add: emptyOrTooLong_def trim_def js_def isWhiteSpace_def isLineTerminator_def)
  have a: "isl (prepareCode (js ''system(0);''))"
    using T1[of "js ''system(0);''"] forbidden_system by (simp add: sanitize_system)
  have b: "\<exists>p \<in> set FORBIDDEN_PATTERNS.
        prepareCode (js ''system(0);'') = Inl (CompilerError (reason p) FORBIDDEN_CODE)"
    using T3[of "js ''system(0);''"] forbidden_system ne by (auto simp: sanitize_system)
  have c: "\<exists>msg. prepareCode (js ''  '') = Inl (CompilerError msg VALIDATION_FAILED)"
    using T2[of "js ''  ''"] ne by (simp add: sanitize_blank)
  have d: "prepareCode (js ''NULL'') =
       Inr \<lparr>preparedCode = js ''NULL'',
            preparedWarnings = [''Using NULL - consider using nullptr in modern C++'']\<rparr>"
    using T4[of "js ''NULL''"] ne not_forbidden_null by (simp add: sanitize_null warnings_null)
  have g: "fst (rateLimitGate Map.empty None None 0) = None"
    by (simp add: rateLimitGate_def checkRateLimit_def)
  from b obtain p where p: "p \<in> set FORBIDDEN_PATTERNS"
    "prepareCode (code ?req) = Inl (CompilerError (reason p) FORBIDDEN_CODE)" by auto
  have "fst (compilePost Map.empty None None 0 (Inr (Some ?req)) (Some (\<lambda>req. Inr ()))) =
          errorStatus FORBIDDEN_CODE"
    using T7[of Map.empty None None 0 ?req "reason p" FORBIDDEN_CODE "\<lambda>req. Inr ()"] g p(2) by blast
  then have e: "fst (compilePost Map.empty None None 0 (Inr (Some ?req)) (Some (\<lambda>req. Inr ()))) = 400"
    using T5 by simp
  show ?thesis using a b c d e by blast
qed

end
